theory Spec2Isabelle
  imports Main "HOL-Library.Word" "HOL-Library.Char_ord" "HOL-Library.List_Lexorder"
begin

unbundle bit_operations_syntax

section \<open>Dates\<close>

text \<open>
  A JavaScript \<open>Date\<close> is modelled by its time value: the number of milliseconds since
  the epoch (1970-01-01T00:00:00Z), an integer. The local-time accessors take the offset
  \<open>tz\<close> of the device's time zone in milliseconds; the offset is constant (the model
  has no daylight-saving switch), so one calendar day is always 86400000 ms. Every
  \<open>new Date()\<close> of one call reads the same instant \<open>now\<close>.
\<close>

type_synonym date = int

definition msPerMinute :: int where "msPerMinute = 60000"
definition msPerHour :: int where "msPerHour = 3600000"
definition msPerDay :: int where "msPerDay = 86400000"

definition localTime :: "int \<Rightarrow> date \<Rightarrow> int" where
  "localTime tz t = t + tz"

definition getHours :: "int \<Rightarrow> date \<Rightarrow> int" where
  "getHours tz t = (localTime tz t mod msPerDay) div msPerHour"

definition getMinutes :: "int \<Rightarrow> date \<Rightarrow> int" where
  "getMinutes tz t = (localTime tz t mod msPerHour) div msPerMinute"

text \<open>\<open>getDay\<close>: 0 = Sunday, ..., 6 = Saturday; the epoch day was a Thursday.\<close>

definition getDay :: "int \<Rightarrow> date \<Rightarrow> int" where
  "getDay tz t = (localTime tz t div msPerDay + 4) mod 7"

text \<open>\<open>d.setHours(h, m, 0, 0)\<close>: the same local calendar day, at h:m:00.000.\<close>

definition setHours :: "int \<Rightarrow> date \<Rightarrow> int \<Rightarrow> int \<Rightarrow> date" where
  "setHours tz t h m =
     (localTime tz t div msPerDay) * msPerDay + h * msPerHour + m * msPerMinute - tz"

text \<open>\<open>d.setDate(d.getDate() + 1)\<close>: the same local time on the next calendar day.\<close>

definition nextDate :: "date \<Rightarrow> date" where
  "nextDate t = t + msPerDay"

text \<open>The local calendar day an instant falls on, counted from the epoch day.\<close>

definition localDay :: "int \<Rightarrow> date \<Rightarrow> int" where
  "localDay tz t = localTime tz t div msPerDay"

text \<open>The local time of day of an instant, in milliseconds after local midnight.\<close>

definition timeOfDay :: "int \<Rightarrow> date \<Rightarrow> int" where
  "timeOfDay tz t = localTime tz t mod msPerDay"

section \<open>Repeat days (types/alarm.ts)\<close>

datatype RepeatDay = Mon | Tue | Wed | Thu | Fri | Sat | Sun

text \<open>
  The weekday of the local calendar day an instant falls on, read off the calendar: the
  epoch day, 1 January 1970, was a Thursday, and the weekdays follow each other in a
  cycle of seven. The program does not compute this; it is the measure against which
  the days returned by \<open>getNextOccurrence\<close> are judged.
\<close>

definition weekdayOfInstant :: "int \<Rightarrow> date \<Rightarrow> RepeatDay" where
  "weekdayOfInstant tz t = [Thu, Fri, Sat, Sun, Mon, Tue, Wed] ! nat (localDay tz t mod 7)"

section \<open>The next occurrence (services/notificationService.ts)\<close>

fun dayMap :: "RepeatDay \<Rightarrow> int" where
  "dayMap Sun = 0"
| "dayMap Mon = 1"
| "dayMap Tue = 2"
| "dayMap Wed = 3"
| "dayMap Thu = 4"
| "dayMap Fri = 5"
| "dayMap Sat = 6"

text \<open>
  The loop \<open>for (let i = 0; i < 7; i++)\<close> of \<open>getNextOccurrence\<close>: \<open>Some\<close> is the
  \<open>return candidate\<close> inside the loop, \<open>None\<close> is leaving the loop without a match.
\<close>

function scanDays :: "int \<Rightarrow> int list \<Rightarrow> nat \<Rightarrow> date \<Rightarrow> date option" where
  "scanDays tz repeatDayNumbers i candidate =
     (if i < 7 then
        (if getDay tz candidate \<in> set repeatDayNumbers then Some candidate
         else scanDays tz repeatDayNumbers (i + 1) (nextDate candidate))
      else None)"
  by pat_completeness auto
termination
  by (relation "measure (\<lambda>(tz, ds, i, c). 7 - i)") auto

declare scanDays.simps [simp del]

text \<open>
  Lines 274-280 of \<open>getNextOccurrence\<close>: today at the alarm's hour and minute, moved
  to tomorrow when that instant is not after \<open>now\<close>.
\<close>

definition firstCandidate :: "int \<Rightarrow> date \<Rightarrow> int \<Rightarrow> int \<Rightarrow> date" where
  "firstCandidate tz now alarmHour alarmMinute =
     (let candidate = setHours tz now alarmHour alarmMinute
      in if candidate \<le> now then nextDate candidate else candidate)"

text \<open>
  The body of \<open>getNextOccurrence\<close> after \<open>repeatDayNumbers\<close> has been computed, as a
  function of the local variables it reads: the scan, then the fallback.
\<close>

definition nextMatchingDay :: "int \<Rightarrow> date \<Rightarrow> int \<Rightarrow> int \<Rightarrow> int list \<Rightarrow> date" where
  "nextMatchingDay tz now alarmHour alarmMinute repeatDayNumbers =
     (case scanDays tz repeatDayNumbers 0 (firstCandidate tz now alarmHour alarmMinute) of
        Some found \<Rightarrow> found
      | None \<Rightarrow> nextDate (setHours tz now alarmHour alarmMinute))"

definition getNextOccurrence :: "int \<Rightarrow> date \<Rightarrow> date \<Rightarrow> RepeatDay list \<Rightarrow> date" where
  "getNextOccurrence tz now alarmTime repeatDays =
     (if length repeatDays = 0 then
        (let result = alarmTime in if result < now then nextDate result else result)
      else
        nextMatchingDay tz now (getHours tz alarmTime) (getMinutes tz alarmTime)
          (sort (map dayMap repeatDays)))"

subsection \<open>Properties of the scan\<close>

lemma localDay_add_days: "localTime tz (c + k * msPerDay) div msPerDay = localTime tz c div msPerDay + k"
  by (simp add: localTime_def msPerDay_def add.commute add.left_commute)

lemma getDay_add_days: "getDay tz (c + k * msPerDay) = (getDay tz c + k) mod 7"
  unfolding getDay_def localDay_add_days by (simp add: mod_simps algebra_simps)

lemma getDay_range: "0 \<le> getDay tz c \<and> getDay tz c < 7"
  by (simp add: getDay_def)

text \<open>
  The number \<open>getDay\<close> gives an instant is the number the table of
  \<open>getNextOccurrence\<close> gives the weekday of the instant, and the table gives different
  weekdays different numbers.
\<close>

lemma getDay_weekdayOfInstant: "getDay tz t = dayMap (weekdayOfInstant tz t)"
proof -
  define q where "q = localDay tz t"
  define d where "d = q mod 7"
  have r: "0 \<le> d" "d < 7" by (simp_all add: d_def)
  have g: "getDay tz t = (d + 4) mod 7"
    by (simp add: getDay_def localDay_def q_def d_def mod_simps)
  from r have "d = 0 \<or> d = 1 \<or> d = 2 \<or> d = 3 \<or> d = 4 \<or> d = 5 \<or> d = 6" by arith
  then have "(d + 4) mod 7 = dayMap ([Thu, Fri, Sat, Sun, Mon, Tue, Wed] ! nat d)"
    by (elim disjE) (simp_all add: nth_Cons')
  then show ?thesis by (simp add: g weekdayOfInstant_def q_def d_def)
qed

lemma dayMap_inject: "dayMap a = dayMap b \<Longrightarrow> a = b"
  by (cases a; cases b) simp_all

lemma weekday_member:
  "getDay tz t \<in> dayMap ` set days \<longleftrightarrow> weekdayOfInstant tz t \<in> set days"
  unfolding getDay_weekdayOfInstant using dayMap_inject by auto

lemma scanDays_Some:
  "scanDays tz ds i c = Some r \<Longrightarrow>
   \<exists>k. i + k < 7 \<and> r = c + int k * msPerDay \<and> getDay tz r \<in> set ds \<and>
       (\<forall>j<k. getDay tz (c + int j * msPerDay) \<notin> set ds)"
proof (induction tz ds i c rule: scanDays.induct)
  case (1 tz ds i c)
  show ?case
  proof (cases "i < 7")
    case False
    with "1.prems" show ?thesis by (simp add: scanDays.simps)
  next
    case lt: True
    show ?thesis
    proof (cases "getDay tz c \<in> set ds")
      case True
      with lt "1.prems" have "r = c" by (simp add: scanDays.simps)
      with True lt show ?thesis by (intro exI[of _ 0]) simp
    next
      case False
      with lt "1.prems" have "scanDays tz ds (i + 1) (nextDate c) = Some r"
        by (simp add: scanDays.simps)
      from "1.IH"[OF lt False this] obtain k where
        k: "i + 1 + k < 7" "r = nextDate c + int k * msPerDay" "getDay tz r \<in> set ds"
           "\<forall>j<k. getDay tz (nextDate c + int j * msPerDay) \<notin> set ds"
        by blast
      have "\<forall>j<Suc k. getDay tz (c + int j * msPerDay) \<notin> set ds"
      proof (intro allI impI)
        fix j assume "j < Suc k"
        show "getDay tz (c + int j * msPerDay) \<notin> set ds"
        proof (cases j)
          case 0
          with False show ?thesis by simp
        next
          case (Suc j')
          with \<open>j < Suc k\<close> have "j' < k" by simp
          with k(4) have "getDay tz (nextDate c + int j' * msPerDay) \<notin> set ds" by blast
          moreover have "nextDate c + int j' * msPerDay = c + int j * msPerDay"
            by (simp add: nextDate_def Suc algebra_simps)
          ultimately show ?thesis by simp
        qed
      qed
      moreover have "r = c + int (Suc k) * msPerDay"
        using k(2) by (simp add: nextDate_def algebra_simps)
      moreover have "i + Suc k < 7" using k(1) by simp
      ultimately show ?thesis using k(3) by blast
    qed
  qed
qed

lemma scanDays_None:
  "scanDays tz ds i c = None \<Longrightarrow> i + j < 7 \<Longrightarrow> getDay tz (c + int j * msPerDay) \<notin> set ds"
proof (induction tz ds i c arbitrary: j rule: scanDays.induct)
  case (1 tz ds i c)
  from "1.prems" have lt: "i < 7" by simp
  from "1.prems"(1) lt have nm: "getDay tz c \<notin> set ds"
    by (auto simp: scanDays.simps[of tz ds i c] split: if_splits)
  from "1.prems"(1) lt nm have rec: "scanDays tz ds (i + 1) (nextDate c) = None"
    by (simp add: scanDays.simps[of tz ds i c])
  show ?case
  proof (cases j)
    case 0
    with nm show ?thesis by simp
  next
    case (Suc j')
    with "1.prems"(2) have "i + 1 + j' < 7" by simp
    from "1.IH"[OF lt nm rec this]
    have "getDay tz (nextDate c + int j' * msPerDay) \<notin> set ds" .
    moreover have "nextDate c + int j' * msPerDay = c + int j * msPerDay"
      by (simp add: nextDate_def Suc algebra_simps)
    ultimately show ?thesis by simp
  qed
qed

lemma weekday_reached:
  assumes "0 \<le> d" "d < 7"
  shows "\<exists>j<7. getDay tz (c + int j * msPerDay) = d"
proof -
  let ?j = "nat ((d - getDay tz c) mod 7)"
  have "?j < 7" by simp
  moreover have "getDay tz (c + int ?j * msPerDay) = d"
    using assms by (simp add: getDay_add_days mod_simps)
  ultimately show ?thesis by blast
qed

lemma dayMap_range: "0 \<le> dayMap d \<and> dayMap d < 7"
  by (cases d) simp_all

lemma scanDays_finds:
  assumes "ds \<noteq> []"
  shows "\<exists>r. scanDays tz (sort (map dayMap ds)) 0 c = Some r"
proof (cases "scanDays tz (sort (map dayMap ds)) 0 c")
  case (Some r)
  then show ?thesis by blast
next
  case None
  from assms obtain d where d: "d \<in> set ds" by (cases ds) auto
  from weekday_reached[of "dayMap d" tz c] dayMap_range[of d]
  obtain j where j: "j < 7" "getDay tz (c + int j * msPerDay) = dayMap d" by blast
  from scanDays_None[OF None, of j] j(1)
  have "getDay tz (c + int j * msPerDay) \<notin> set (sort (map dayMap ds))" by simp
  with j(2) d show ?thesis by simp
qed



lemma getHours_range: "0 \<le> getHours tz a \<and> getHours tz a \<le> 23"
proof -
  define y where "y = localTime tz a mod 86400000"
  have "0 \<le> y \<and> y < 86400000" by (simp add: y_def)
  then have "0 \<le> y div 3600000 \<and> y div 3600000 \<le> 23" by arith
  then show ?thesis by (simp add: getHours_def msPerDay_def msPerHour_def y_def)
qed

lemma getMinutes_range: "0 \<le> getMinutes tz a \<and> getMinutes tz a \<le> 59"
proof -
  define y where "y = localTime tz a mod 3600000"
  have "0 \<le> y \<and> y < 3600000" by (simp add: y_def)
  then have "0 \<le> y div 60000 \<and> y div 60000 \<le> 59" by arith
  then show ?thesis by (simp add: getMinutes_def msPerMinute_def msPerHour_def y_def)
qed

lemma alarm_offset_range:
  "0 \<le> getHours tz a * msPerHour + getMinutes tz a * msPerMinute \<and>
   getHours tz a * msPerHour + getMinutes tz a * msPerMinute < msPerDay"
  using getHours_range[of tz a] getMinutes_range[of tz a]
  by (simp add: msPerDay_def msPerHour_def msPerMinute_def)

text \<open>Facts about setHours with an offset inside the day.\<close>

lemma setHours_local:
  "localTime tz (setHours tz t h m) = (localTime tz t div msPerDay) * msPerDay + (h * msPerHour + m * msPerMinute)"
  by (simp add: setHours_def localTime_def)

lemma div_day_offset:
  assumes "0 \<le> off" "off < msPerDay"
  shows "(q * msPerDay + off) div msPerDay = q" and "(q * msPerDay + off) mod msPerDay = off"
  using assms by (simp_all add: msPerDay_def)

lemma firstCandidate_props:
  assumes off: "0 \<le> h * msPerHour + m * msPerMinute" "h * msPerHour + m * msPerMinute < msPerDay"
  shows "now < firstCandidate tz now h m"
    and "firstCandidate tz now h m - msPerDay \<le> now"
    and "timeOfDay tz (firstCandidate tz now h m) = h * msPerHour + m * msPerMinute"
    and "localDay tz (firstCandidate tz now h m) =
           (if setHours tz now h m \<le> now then localDay tz now + 1 else localDay tz now)"
proof -
  let ?off = "h * msPerHour + m * msPerMinute"
  let ?L = "localTime tz now"
  have L: "(?L div msPerDay) * msPerDay \<le> ?L" "?L < (?L div msPerDay) * msPerDay + msPerDay"
    by (simp_all add: msPerDay_def)
  have s: "setHours tz now h m = (?L div msPerDay) * msPerDay + ?off - tz"
    by (simp add: setHours_def)
  have n: "now = ?L - tz" by (simp add: localTime_def)
  show "now < firstCandidate tz now h m"
    using L off s n by (auto simp: firstCandidate_def Let_def nextDate_def)
  show "firstCandidate tz now h m - msPerDay \<le> now"
    using L off s n by (auto simp: firstCandidate_def Let_def nextDate_def)
  have l0: "localTime tz (setHours tz now h m) = (?L div msPerDay) * msPerDay + ?off"
    by (rule setHours_local)
  have l1: "localTime tz (nextDate (setHours tz now h m)) = (?L div msPerDay + 1) * msPerDay + ?off"
    by (simp add: nextDate_def localTime_def setHours_def algebra_simps)
  show "timeOfDay tz (firstCandidate tz now h m) = ?off"
    unfolding timeOfDay_def firstCandidate_def Let_def
    using div_day_offset(2)[OF off] l0 l1 by (simp del: mult_cancel_right)
  show "localDay tz (firstCandidate tz now h m) =
           (if setHours tz now h m \<le> now then localDay tz now + 1 else localDay tz now)"
    unfolding localDay_def firstCandidate_def Let_def
    using div_day_offset(1)[OF off] l0 l1 by (simp del: mult_cancel_right)
qed


lemma timeOfDay_add_days: "timeOfDay tz (c + k * msPerDay) = timeOfDay tz c"
proof -
  have "localTime tz (c + k * msPerDay) = localTime tz c + k * msPerDay"
    by (simp add: localTime_def)
  then show ?thesis by (simp add: timeOfDay_def)
qed

lemma getHours_of_offset:
  assumes "timeOfDay tz t = h * msPerHour + m * msPerMinute" "0 \<le> m" "m \<le> 59"
  shows "getHours tz t = h"
proof -
  have "(h * 3600000 + m * 60000) div 3600000 = h" using assms(2,3) by simp
  with assms(1) show ?thesis
    by (simp add: getHours_def timeOfDay_def msPerHour_def msPerMinute_def)
qed

lemma getMinutes_of_offset:
  assumes "timeOfDay tz t = h * msPerHour + m * msPerMinute" "0 \<le> m" "m \<le> 59"
  shows "getMinutes tz t = m"
proof -
  have "localTime tz t mod msPerHour = (localTime tz t mod msPerDay) mod msPerHour"
    by (simp add: msPerHour_def msPerDay_def mod_mod_cancel)
  also have "\<dots> = (h * 3600000 + m * 60000) mod 3600000"
    using assms(1) by (simp add: timeOfDay_def msPerHour_def msPerMinute_def)
  also have "\<dots> = m * 60000" using assms(2,3) by simp
  finally show ?thesis by (simp add: getMinutes_def msPerMinute_def)
qed

lemma setHours_fixed_timeOfDay:
  assumes "setHours tz t h m = t" "0 \<le> h * msPerHour + m * msPerMinute"
          "h * msPerHour + m * msPerMinute < msPerDay"
  shows "timeOfDay tz t = h * msPerHour + m * msPerMinute"
proof -
  have "localTime tz t = (localTime tz t div msPerDay) * msPerDay + (h * msPerHour + m * msPerMinute)"
    using setHours_local[of tz t h m] assms(1) by simp
  then have "localTime tz t mod msPerDay = ((localTime tz t div msPerDay) * msPerDay + (h * msPerHour + m * msPerMinute)) mod msPerDay"
    by simp
  also have "\<dots> = h * msPerHour + m * msPerMinute"
    by (rule div_day_offset(2)[OF assms(2,3)])
  finally show ?thesis by (simp add: timeOfDay_def)
qed

lemma same_timeOfDay_days_apart:
  assumes "timeOfDay tz t = timeOfDay tz c"
  shows "t = c + (localDay tz t - localDay tz c) * msPerDay"
proof -
  have t: "localTime tz t = localDay tz t * msPerDay + timeOfDay tz t"
    by (simp add: localDay_def timeOfDay_def)
  have c: "localTime tz c = localDay tz c * msPerDay + timeOfDay tz c"
    by (simp add: localDay_def timeOfDay_def)
  have "localTime tz t - localTime tz c = (localDay tz t - localDay tz c) * msPerDay"
    using t c assms by (simp add: algebra_simps)
  then show ?thesis by (simp add: localTime_def)
qed

lemma first_match_minimal:
  assumes c: "now < c" "c - msPerDay \<le> now"
      and none: "\<forall>j<k. getDay tz (c + int j * msPerDay) \<notin> set ds"
      and t: "now < t" "timeOfDay tz t = timeOfDay tz c" "getDay tz t \<in> set ds"
  shows "c + int k * msPerDay \<le> t"
proof -
  define q where "q = localDay tz t - localDay tz c"
  have tq: "t = c + q * msPerDay" unfolding q_def by (rule same_timeOfDay_days_apart[OF t(2)])
  have "c - msPerDay < c + q * msPerDay" using c(2) t(1) tq by simp
  then have "- 1 < q" by (simp add: msPerDay_def)
  then have q0: "0 \<le> q" by simp
  then have tj: "t = c + int (nat q) * msPerDay" using tq by simp
  have "\<not> nat q < k"
  proof
    assume "nat q < k"
    with none have "getDay tz (c + int (nat q) * msPerDay) \<notin> set ds" by blast
    with tj t(3) show False by simp
  qed
  then have "int k \<le> q" using q0 by linarith
  then have "int k * msPerDay \<le> q * msPerDay" by (simp add: msPerDay_def)
  with tq show ?thesis by simp
qed

lemma scanDays_no_weekday:
  assumes "\<forall>d\<in>set nums. d < 0 \<or> 6 < d"
  shows "scanDays tz nums i c = None"
proof (cases "scanDays tz nums i c")
  case None
  then show ?thesis .
next
  case (Some r)
  from scanDays_Some[OF Some] have "getDay tz r \<in> set nums" by blast
  with assms getDay_range[of tz r] show ?thesis by force
qed

text \<open>
  C1. Claim: for an empty \<open>repeatDays\<close> the result is today at the alarm's time of day when
  \<open>now\<close> is strictly before it, and otherwise the next calendar day at that time.
  The one-time branch does not start from today's date: it starts from the stored
  \<open>alarmTime\<close>, calendar date included, and adds one day when that instant is before
  \<open>now\<close>. With the alarm stored on day 0 at 07:00 and \<open>now\<close> on day 1 at 08:00 (offset 0)
  the result is day 1 at 07:00: an instant of today that has already passed, where the
  claim requires day 2 at 07:00.
\<close>

theorem getNextOccurrence_one_time_stored_date:
  "getNextOccurrence 0 115200000 25200000 [] = 111600000
 \<and> localDay 0 115200000 = 1 \<and> timeOfDay 0 115200000 = 8 * msPerHour
 \<and> localDay 0 (getNextOccurrence 0 115200000 25200000 []) = 1
 \<and> timeOfDay 0 (getNextOccurrence 0 115200000 25200000 []) = 7 * msPerHour
 \<and> getNextOccurrence 0 115200000 25200000 [] < 115200000"
  by (simp add: getNextOccurrence_def nextDate_def localDay_def timeOfDay_def localTime_def
      msPerDay_def msPerHour_def)

text \<open>
  C2. For every non-empty \<open>repeatDays\<close> the instant returned by \<open>getNextOccurrence\<close> is
  strictly later than \<open>now\<close>, is at the alarm's hour and minute, falls on a weekday of
  \<open>repeatDays\<close>, and is minimal: every instant \<open>t\<close> later than \<open>now\<close> that is at the alarm
  time (setting its time to the alarm's hour and minute with zero seconds and
  milliseconds leaves it unchanged) and falls on a weekday of \<open>repeatDays\<close> is not
  earlier than the result. The weekday of an instant is the calendar's,
  \<open>weekdayOfInstant\<close>, not the number of the program's table.
\<close>

theorem getNextOccurrence_repeating:
  assumes "days \<noteq> []"
  shows "now < getNextOccurrence tz now alarmTime days
       \<and> getHours tz (getNextOccurrence tz now alarmTime days) = getHours tz alarmTime
       \<and> getMinutes tz (getNextOccurrence tz now alarmTime days) = getMinutes tz alarmTime
       \<and> weekdayOfInstant tz (getNextOccurrence tz now alarmTime days) \<in> set days
       \<and> (\<forall>t. now < t
              \<and> setHours tz t (getHours tz alarmTime) (getMinutes tz alarmTime) = t
              \<and> weekdayOfInstant tz t \<in> set days
            \<longrightarrow> getNextOccurrence tz now alarmTime days \<le> t)"
proof -
  let ?h = "getHours tz alarmTime" and ?m = "getMinutes tz alarmTime"
  let ?off = "?h * msPerHour + ?m * msPerMinute"
  let ?ds = "sort (map dayMap days)"
  let ?c = "firstCandidate tz now ?h ?m"
  have off: "0 \<le> ?off" "?off < msPerDay" using alarm_offset_range[of tz alarmTime] by simp_all
  have mr: "0 \<le> ?m" "?m \<le> 59" using getMinutes_range[of tz alarmTime] by simp_all
  note fc = firstCandidate_props[OF off, where tz = tz and now = now]
  from scanDays_finds[OF assms, of tz ?c] obtain r where r: "scanDays tz ?ds 0 ?c = Some r" by blast
  have gn: "getNextOccurrence tz now alarmTime days = r"
    using assms r by (simp add: getNextOccurrence_def nextMatchingDay_def)
  from scanDays_Some[OF r] obtain k where
    k: "k < 7" "r = ?c + int k * msPerDay" "getDay tz r \<in> set ?ds"
       "\<forall>j<k. getDay tz (?c + int j * msPerDay) \<notin> set ?ds"
    by auto
  have tod: "timeOfDay tz r = ?off" using k(2) fc(3) by (simp add: timeOfDay_add_days)
  have "now < r" using fc(1) k(2) by (simp add: msPerDay_def)
  moreover have "getHours tz r = ?h" by (rule getHours_of_offset[OF tod mr])
  moreover have "getMinutes tz r = ?m" by (rule getMinutes_of_offset[OF tod mr])
  moreover have "weekdayOfInstant tz r \<in> set days" using k(3) by (simp add: weekday_member)
  moreover have "\<forall>t. now < t \<and> setHours tz t ?h ?m = t \<and> weekdayOfInstant tz t \<in> set days \<longrightarrow> r \<le> t"
  proof (intro allI impI)
    fix t assume a: "now < t \<and> setHours tz t ?h ?m = t \<and> weekdayOfInstant tz t \<in> set days"
    then have "timeOfDay tz t = ?off" using setHours_fixed_timeOfDay off by blast
    then have "timeOfDay tz t = timeOfDay tz ?c" using fc(3) by simp
    moreover have "getDay tz t \<in> set ?ds" using a by (simp add: weekday_member)
    ultimately have "?c + int k * msPerDay \<le> t"
      using first_match_minimal[OF fc(1) fc(2) k(4)] a by blast
    then show "r \<le> t" using k(2) by simp
  qed
  ultimately show ?thesis unfolding gn by blast
qed

text \<open>
  The spec's scenario: alarm at 07:00, repeat days Monday and Wednesday, \<open>now\<close> on
  Tuesday (day 5) at 10:00; the result is Wednesday (day 6) at 07:00, and it is not
  later than the following Monday (day 11) at 07:00.
\<close>

theorem getNextOccurrence_repeating_witness:
  "[Mon, Wed] \<noteq> []
 \<and> getNextOccurrence 0 468000000 25200000 [Mon, Wed] = 543600000
 \<and> 468000000 < getNextOccurrence 0 468000000 25200000 [Mon, Wed]
 \<and> getHours 0 (getNextOccurrence 0 468000000 25200000 [Mon, Wed]) = 7
 \<and> getMinutes 0 (getNextOccurrence 0 468000000 25200000 [Mon, Wed]) = 0
 \<and> weekdayOfInstant 0 468000000 = Tue
 \<and> weekdayOfInstant 0 (getNextOccurrence 0 468000000 25200000 [Mon, Wed]) = Wed
 \<and> weekdayOfInstant 0 975600000 = Mon
 \<and> getNextOccurrence 0 468000000 25200000 [Mon, Wed] \<le> 975600000"
proof -
  have ne: "[Mon, Wed] \<noteq> []" by simp
  note th = getNextOccurrence_repeating[OF ne, where tz = 0 and now = 468000000
      and alarmTime = 25200000]
  have hm: "getHours 0 25200000 = 7" "getMinutes 0 25200000 = 0"
    by (simp_all add: getHours_def getMinutes_def localTime_def msPerDay_def msPerHour_def
        msPerMinute_def)
  have w: "weekdayOfInstant 0 468000000 = Tue" "weekdayOfInstant 0 543600000 = Wed"
    "weekdayOfInstant 0 975600000 = Mon"
    by (simp_all add: weekdayOfInstant_def localDay_def localTime_def msPerDay_def nth_Cons')
  have t: "(468000000::int) < 975600000" "setHours 0 975600000 7 0 = 975600000"
    "weekdayOfInstant 0 975600000 \<in> set [Mon, Wed]"
    by (simp_all add: w setHours_def localTime_def msPerDay_def msPerHour_def
        msPerMinute_def)
  from th have "\<forall>t. 468000000 < t
        \<and> setHours 0 t (getHours 0 25200000) (getMinutes 0 25200000) = t
        \<and> weekdayOfInstant 0 t \<in> set [Mon, Wed]
      \<longrightarrow> getNextOccurrence 0 468000000 25200000 [Mon, Wed] \<le> t"
    by blast
  with t hm have le: "getNextOccurrence 0 468000000 25200000 [Mon, Wed] \<le> 975600000"
    by simp
  have v: "getNextOccurrence 0 468000000 25200000 [Mon, Wed] = 543600000"
    by (simp add: getNextOccurrence_def nextMatchingDay_def firstCandidate_def setHours_def
        getHours_def getMinutes_def getDay_def localTime_def nextDate_def scanDays.simps
        msPerDay_def msPerHour_def msPerMinute_def)
  from th hm le v ne w show ?thesis by simp
qed

text \<open>
  C8. \<open>getNextOccurrence\<close> is a total function whose scan is the terminating recursion
  \<open>scanDays\<close>, bounded by 7 steps. For every non-empty \<open>repeatDays\<close> the scan returns from
  inside the loop, at a step \<open>k < 7\<close>, the \<open>k\<close>-th day after the first candidate: a day
  whose weekday (the calendar's) is in \<open>repeatDays\<close>, the first such day of the scan. If the
  scan exhausts its 7 days without a match (no number of \<open>repeatDayNumbers\<close> is a weekday
  number 0..6), the function returns the fallback: tomorrow at the alarm's hour and
  minute.
\<close>

theorem getNextOccurrence_scan_bounded:
  "(days \<noteq> [] \<longrightarrow>
      (\<exists>k<7. scanDays tz (sort (map dayMap days)) 0
                 (firstCandidate tz now (getHours tz alarmTime) (getMinutes tz alarmTime))
               = Some (getNextOccurrence tz now alarmTime days)
            \<and> getNextOccurrence tz now alarmTime days
               = firstCandidate tz now (getHours tz alarmTime) (getMinutes tz alarmTime)
                 + int k * msPerDay
            \<and> weekdayOfInstant tz (getNextOccurrence tz now alarmTime days) \<in> set days
            \<and> (\<forall>j<k. weekdayOfInstant tz
                         (firstCandidate tz now (getHours tz alarmTime) (getMinutes tz alarmTime)
                          + int j * msPerDay) \<notin> set days)))
 \<and> ((\<forall>d\<in>set nums. d < 0 \<or> 6 < d) \<and> 0 \<le> h \<and> h \<le> 23 \<and> 0 \<le> m \<and> m \<le> 59 \<longrightarrow>
      scanDays tz nums 0 (firstCandidate tz now h m) = None
    \<and> nextMatchingDay tz now h m nums = nextDate (setHours tz now h m)
    \<and> localDay tz (nextMatchingDay tz now h m nums) = localDay tz now + 1
    \<and> getHours tz (nextMatchingDay tz now h m nums) = h
    \<and> getMinutes tz (nextMatchingDay tz now h m nums) = m)"
proof (intro conjI impI)
  assume ne: "days \<noteq> []"
  let ?ds = "sort (map dayMap days)"
  let ?c = "firstCandidate tz now (getHours tz alarmTime) (getMinutes tz alarmTime)"
  from scanDays_finds[OF ne, of tz ?c] obtain r where r: "scanDays tz ?ds 0 ?c = Some r" by blast
  have gn: "getNextOccurrence tz now alarmTime days = r"
    using ne r by (simp add: getNextOccurrence_def nextMatchingDay_def)
  from scanDays_Some[OF r] obtain k where k: "k < 7" "r = ?c + int k * msPerDay"
      "getDay tz r \<in> set ?ds" "\<forall>j<k. getDay tz (?c + int j * msPerDay) \<notin> set ?ds"
    by auto
  from k(3) have m: "weekdayOfInstant tz r \<in> set days" by (simp add: weekday_member)
  from k(4) have e: "\<forall>j<k. weekdayOfInstant tz (?c + int j * msPerDay) \<notin> set days"
    by (simp add: weekday_member)
  from r gn k(1,2) m e
  show "\<exists>k<7. scanDays tz ?ds 0 ?c = Some (getNextOccurrence tz now alarmTime days)
            \<and> getNextOccurrence tz now alarmTime days = ?c + int k * msPerDay
            \<and> weekdayOfInstant tz (getNextOccurrence tz now alarmTime days) \<in> set days
            \<and> (\<forall>j<k. weekdayOfInstant tz (?c + int j * msPerDay) \<notin> set days)"
    by blast
next
  assume a: "(\<forall>d\<in>set nums. d < 0 \<or> 6 < d) \<and> 0 \<le> h \<and> h \<le> 23 \<and> 0 \<le> m \<and> m \<le> 59"
  then have none: "scanDays tz nums 0 (firstCandidate tz now h m) = None"
    using scanDays_no_weekday by blast
  then have fb: "nextMatchingDay tz now h m nums = nextDate (setHours tz now h m)"
    by (simp add: nextMatchingDay_def)
  have off: "0 \<le> h * msPerHour + m * msPerMinute" "h * msPerHour + m * msPerMinute < msPerDay"
    using a by (simp_all add: msPerHour_def msPerMinute_def msPerDay_def)
  have l1: "localTime tz (nextDate (setHours tz now h m))
             = (localTime tz now div msPerDay + 1) * msPerDay + (h * msPerHour + m * msPerMinute)"
    by (simp add: nextDate_def localTime_def setHours_def algebra_simps)
  have day: "localDay tz (nextDate (setHours tz now h m)) = localDay tz now + 1"
    unfolding localDay_def l1 by (rule div_day_offset(1)[OF off])
  have tod: "timeOfDay tz (nextDate (setHours tz now h m)) = h * msPerHour + m * msPerMinute"
    unfolding timeOfDay_def l1 by (rule div_day_offset(2)[OF off])
  have mr: "0 \<le> m" "m \<le> 59" using a by simp_all
  show "scanDays tz nums 0 (firstCandidate tz now h m) = None" by (rule none)
  show "nextMatchingDay tz now h m nums = nextDate (setHours tz now h m)" by (rule fb)
  show "localDay tz (nextMatchingDay tz now h m nums) = localDay tz now + 1"
    unfolding fb by (rule day)
  show "getHours tz (nextMatchingDay tz now h m nums) = h"
    unfolding fb by (rule getHours_of_offset[OF tod mr])
  show "getMinutes tz (nextMatchingDay tz now h m nums) = m"
    unfolding fb by (rule getMinutes_of_offset[OF tod mr])
qed

text \<open>
  Monday only, from Tuesday (day 5) at 10:00: the first candidate is Wednesday at 07:00
  and the scan steps to the following Monday (day 11), which it returns. With the day
  numbers \<open>[7]\<close>, which no weekday has, the scan ends without a match and the result is
  tomorrow (day 6) at 07:00.
\<close>

theorem getNextOccurrence_scan_bounded_witness:
  "[Mon] \<noteq> []
 \<and> getNextOccurrence 0 468000000 25200000 [Mon] = 975600000
 \<and> (\<exists>k<7. getNextOccurrence 0 468000000 25200000 [Mon]
           = firstCandidate 0 468000000 (getHours 0 25200000) (getMinutes 0 25200000)
             + int k * msPerDay
        \<and> (\<forall>j<k. weekdayOfInstant 0
                     (firstCandidate 0 468000000 (getHours 0 25200000) (getMinutes 0 25200000)
                      + int j * msPerDay) \<noteq> Mon))
 \<and> weekdayOfInstant 0 (getNextOccurrence 0 468000000 25200000 [Mon]) = Mon
 \<and> scanDays 0 [7] 0 (firstCandidate 0 468000000 7 0) = None
 \<and> nextMatchingDay 0 468000000 7 0 [7] = 543600000
 \<and> localDay 0 468000000 = 5
 \<and> localDay 0 (nextMatchingDay 0 468000000 7 0 [7]) = 6
 \<and> getHours 0 (nextMatchingDay 0 468000000 7 0 [7]) = 7
 \<and> getMinutes 0 (nextMatchingDay 0 468000000 7 0 [7]) = 0"
proof -
  note th = getNextOccurrence_scan_bounded[where days = "[Mon]" and tz = 0
      and now = 468000000 and alarmTime = 25200000 and nums = "[7]" and h = 7 and m = 0]
  have v: "nextDate (setHours 0 468000000 7 0) = 543600000" "localDay 0 468000000 = 5"
    by (simp_all add: nextDate_def setHours_def localDay_def localTime_def msPerDay_def
        msPerHour_def msPerMinute_def)
  have g: "getNextOccurrence 0 468000000 25200000 [Mon] = 975600000"
    by (simp add: getNextOccurrence_def nextMatchingDay_def firstCandidate_def setHours_def
        getHours_def getMinutes_def getDay_def localTime_def nextDate_def scanDays.simps
        msPerDay_def msPerHour_def msPerMinute_def)
  from th have "\<exists>k<7. getNextOccurrence 0 468000000 25200000 [Mon]
           = firstCandidate 0 468000000 (getHours 0 25200000) (getMinutes 0 25200000)
             + int k * msPerDay
        \<and> (\<forall>j<k. weekdayOfInstant 0
                     (firstCandidate 0 468000000 (getHours 0 25200000) (getMinutes 0 25200000)
                      + int j * msPerDay) \<noteq> Mon)"
    by auto
  moreover from th have "weekdayOfInstant 0 (getNextOccurrence 0 468000000 25200000 [Mon]) = Mon"
    by auto
  moreover from th v have "scanDays 0 [7] 0 (firstCandidate 0 468000000 7 0) = None"
    "nextMatchingDay 0 468000000 7 0 [7] = 543600000"
    "localDay 0 (nextMatchingDay 0 468000000 7 0 [7]) = 6"
    "getHours 0 (nextMatchingDay 0 468000000 7 0 [7]) = 7"
    "getMinutes 0 (nextMatchingDay 0 468000000 7 0 [7]) = 0"
    by (simp_all add: localDay_def getHours_def getMinutes_def localTime_def msPerDay_def
        msPerHour_def msPerMinute_def)
  ultimately show ?thesis using v(2) g by blast
qed

section \<open>Text encodings of the platform: timestamps\<close>

subsection \<open>Decimal digits\<close>

definition digitChar :: "nat \<Rightarrow> char" where
  "digitChar n = char_of (48 + n)"

definition digitVal :: "char \<Rightarrow> nat option" where
  "digitVal c = (let k = (of_char c :: nat) in if 48 \<le> k \<and> k \<le> 57 then Some (k - 48) else None)"

function digits :: "nat \<Rightarrow> string" where
  "digits n = (if n < 10 then [digitChar n] else digits (n div 10) @ [digitChar (n mod 10)])"
  by pat_completeness auto
termination
  by (relation "measure id") auto

declare digits.simps [simp del]

definition padStart :: "nat \<Rightarrow> string \<Rightarrow> string" where
  "padStart w s = replicate (w - length s) CHR ''0'' @ s"

fun parseDigitsFrom :: "nat \<Rightarrow> string \<Rightarrow> nat option" where
  "parseDigitsFrom acc [] = Some acc"
| "parseDigitsFrom acc (c # cs) =
     (case digitVal c of None \<Rightarrow> None | Some d \<Rightarrow> parseDigitsFrom (10 * acc + d) cs)"

definition parseDigits :: "string \<Rightarrow> nat option" where
  "parseDigits s = (if s = [] then None else parseDigitsFrom 0 s)"

definition pad2 :: "nat \<Rightarrow> string" where
  "pad2 n = padStart 2 (digits n)"

definition pad3 :: "nat \<Rightarrow> string" where
  "pad3 n = padStart 3 (digits n)"

lemma digitVal_digitChar: "n < 10 \<Longrightarrow> digitVal (digitChar n) = Some n"
  by (simp add: digitVal_def digitChar_def Let_def)

lemma digitVal_zero: "digitVal CHR ''0'' = Some 0"
  by (simp add: digitVal_def)

lemma parseDigitsFrom_append:
  "parseDigitsFrom acc (xs @ ys) =
     (case parseDigitsFrom acc xs of None \<Rightarrow> None | Some a \<Rightarrow> parseDigitsFrom a ys)"
  by (induction xs arbitrary: acc) (auto split: option.splits)

lemma parseDigitsFrom_digits: "parseDigitsFrom acc (digits n) = Some (acc * 10 ^ length (digits n) + n)"
proof (induction n arbitrary: acc rule: digits.induct)
  case (1 n)
  show ?case
  proof (cases "n < 10")
    case True
    then show ?thesis by (simp add: digits.simps[of n] digitVal_digitChar)
  next
    case False
    have m: "n mod 10 < 10" by simp
    from False "1.IH"[OF False] show ?thesis
      by (simp add: digits.simps[of n] parseDigitsFrom_append digitVal_digitChar[OF m] algebra_simps)
  qed
qed

lemma parseDigitsFrom_zeros: "parseDigitsFrom 0 (replicate k CHR ''0'' @ s) = parseDigitsFrom 0 s"
  by (induction k) (simp_all add: digitVal_zero)

lemma digits_nonempty: "digits n \<noteq> []"
  by (subst digits.simps) simp

lemma parseDigits_padStart: "parseDigits (padStart w (digits n)) = Some n"
  by (simp add: parseDigits_def padStart_def parseDigitsFrom_zeros parseDigitsFrom_digits digits_nonempty)

lemma length_digits: "n < 10 ^ k \<Longrightarrow> 0 < k \<Longrightarrow> length (digits n) \<le> k"
proof (induction n arbitrary: k rule: digits.induct)
  case (1 n)
  show ?case
  proof (cases "n < 10")
    case True
    with "1.prems" show ?thesis by (simp add: digits.simps[of n])
  next
    case False
    with "1.prems" obtain k' where k': "k = Suc k'" by (cases k) auto
    with False "1.prems" have "0 < k'" by (cases k') auto
    moreover from "1.prems" k' have "n div 10 < 10 ^ k'" by (simp add: less_mult_imp_div_less mult.commute)
    ultimately have "length (digits (n div 10)) \<le> k'" using "1.IH"[OF False] by blast
    with False k' show ?thesis by (simp add: digits.simps[of n])
  qed
qed

lemma length_padStart: "length s \<le> w \<Longrightarrow> length (padStart w s) = w"
  by (simp add: padStart_def)

lemma length_padStart_ge: "w \<le> length (padStart w s)"
  by (simp add: padStart_def)

lemma length_pad2: "n < 100 \<Longrightarrow> length (pad2 n) = 2"
  unfolding pad2_def by (rule length_padStart) (rule length_digits[of n 2, simplified], simp)

lemma length_pad3: "n < 1000 \<Longrightarrow> length (pad3 n) = 3"
  unfolding pad3_def by (rule length_padStart) (rule length_digits[of n 3, simplified], simp)


subsection \<open>The proleptic Gregorian calendar\<close>

text \<open>
  Days since the epoch to the civil date (year, month, day) and back. Years are counted
  from 1 March inside 400-year eras of 146097 days, so that the leap day is the last day
  of its year.
\<close>

text \<open>Day number within a 400-year era starting on 1 March, to (year of era, day of year).\<close>

definition yearOfEra :: "int \<Rightarrow> int \<times> int" where
  "yearOfEra doe =
     (let c = min 3 (doe div 36524); doc = doe - c * 36524;
          q = doc div 1461; doq = doc - q * 1461;
          a = min 3 (doq div 365); doy = doq - a * 365
      in (100 * c + 4 * q + a, doy))"

definition civilFromDays :: "int \<Rightarrow> int \<times> int \<times> int" where
  "civilFromDays z =
     (let z' = z + 719468; era = z' div 146097; doe = z' mod 146097;
          (yoe, doy) = yearOfEra doe;
          mp = (5 * doy + 2) div 153;
          d = doy - (153 * mp + 2) div 5 + 1;
          m = (if mp < 10 then mp + 3 else mp - 9);
          y = yoe + era * 400 + (if m \<le> 2 then 1 else 0)
      in (y, m, d))"

definition daysFromCivil :: "int \<Rightarrow> int \<Rightarrow> int \<Rightarrow> int" where
  "daysFromCivil y m d =
     (let y' = (if m \<le> 2 then y - 1 else y); era = y' div 400; yoe = y' mod 400;
          mp = (if m > 2 then m - 3 else m + 9);
          doy = (153 * mp + 2) div 5 + d - 1;
          doe = 365 * yoe + yoe div 4 - yoe div 100 + doy
      in era * 146097 + doe - 719468)"

lemma yearOfEra_props:
  assumes "0 \<le> doe" "doe < 146097" "yearOfEra doe = (yoe, doy)"
  shows "0 \<le> yoe" "yoe < 400" "0 \<le> doy" "doy \<le> 365"
    "365 * yoe + yoe div 4 - yoe div 100 + doy = doe"
proof -
  define c where "c = min 3 (doe div 36524)"
  define doc where "doc = doe - c * 36524"
  define q where "q = doc div 1461"
  define doq where "doq = doc - q * 1461"
  define a where "a = min 3 (doq div 365)"
  have yoe: "yoe = 100 * c + 4 * q + a" and doy: "doy = doq - a * 365"
    using assms(3) by (simp_all add: yearOfEra_def Let_def c_def doc_def q_def doq_def a_def)
  have c: "0 \<le> c" "c \<le> 3" using assms(1) by (simp_all add: c_def)
  have doc: "0 \<le> doc" "doc \<le> 36524" using assms(1,2) unfolding doc_def c_def by arith+
  have q: "0 \<le> q" "q \<le> 24" using doc unfolding q_def by arith+
  have doq: "0 \<le> doq" "doq \<le> 1460" using doc unfolding doq_def q_def by arith+
  have a: "0 \<le> a" "a \<le> 3" using doq by (simp_all add: a_def)
  show "0 \<le> yoe" using c q a yoe by simp
  show "yoe < 400" using c q a yoe by simp
  show "0 \<le> doy" using doq unfolding doy a_def by arith
  show "doy \<le> 365" using doq unfolding doy a_def by arith
  have d4: "yoe div 4 = 25 * c + q" using a unfolding yoe by simp
  have d100: "yoe div 100 = c" using a q unfolding yoe by simp
  show "365 * yoe + yoe div 4 - yoe div 100 + doy = doe"
    unfolding d4 d100 unfolding yoe doy doq_def doc_def by simp
qed

lemma month_day_props:
  fixes doy :: int
  assumes "0 \<le> doy" "doy \<le> 365"
  defines "mp \<equiv> (5 * doy + 2) div 153"
  defines "d \<equiv> doy - (153 * mp + 2) div 5 + 1"
  shows "0 \<le> mp" "mp \<le> 11" "1 \<le> d" "d \<le> 31"
proof -
  show "0 \<le> mp" "mp \<le> 11" using assms(1,2) unfolding mp_def by arith+
  then have "mp = 0 \<or> mp = 1 \<or> mp = 2 \<or> mp = 3 \<or> mp = 4 \<or> mp = 5 \<or> mp = 6 \<or> mp = 7
      \<or> mp = 8 \<or> mp = 9 \<or> mp = 10 \<or> mp = 11" by arith
  then show "1 \<le> d" "d \<le> 31" using assms(1,2) unfolding d_def mp_def by (elim disjE; arith)+
qed

lemma daysFromCivil_civilFromDays:
  "civilFromDays z = (y, m, d) \<Longrightarrow> daysFromCivil y m d = z"
proof -
  assume cv: "civilFromDays z = (y, m, d)"
  define z' where "z' = z + 719468"
  define era where "era = z' div 146097"
  define doe where "doe = z' mod 146097"
  obtain yoe doy where yd: "yearOfEra doe = (yoe, doy)" by (cases "yearOfEra doe")
  define mp where "mp = (5 * doy + 2) div 153"
  have doe: "0 \<le> doe" "doe < 146097" by (simp_all add: doe_def)
  note yp = yearOfEra_props[OF doe yd]
  note mdp = month_day_props[OF yp(3,4), folded mp_def]
  have m: "m = (if mp < 10 then mp + 3 else mp - 9)"
    and d: "d = doy - (153 * mp + 2) div 5 + 1"
    and y: "y = yoe + era * 400 + (if m \<le> 2 then 1 else 0)"
    using cv yd unfolding mp_def era_def doe_def z'_def
    by (auto simp: civilFromDays_def Let_def)
  have y': "(if m \<le> 2 then y - 1 else y) = yoe + era * 400" using y by simp
  have e: "(yoe + era * 400) div 400 = era" "(yoe + era * 400) mod 400 = yoe"
    using yp(1,2) by simp_all
  have mp': "(if m > 2 then m - 3 else m + 9) = mp" using m mdp(1,2) by auto
  have doy': "(153 * mp + 2) div 5 + d - 1 = doy" using d by simp
  have "daysFromCivil y m d = era * 146097 + doe - 719468"
    unfolding daysFromCivil_def Let_def y' e mp' doy' using yp(5) by simp
  also have "\<dots> = z" unfolding era_def doe_def z'_def by simp
  finally show ?thesis .
qed

lemma civilFromDays_ranges:
  "civilFromDays z = (y, m, d) \<Longrightarrow> 1 \<le> m \<and> m \<le> 12 \<and> 1 \<le> d \<and> d \<le> 31"
proof -
  assume cv: "civilFromDays z = (y, m, d)"
  define doe where "doe = (z + 719468) mod 146097"
  obtain yoe doy where yd: "yearOfEra doe = (yoe, doy)" by (cases "yearOfEra doe")
  define mp where "mp = (5 * doy + 2) div 153"
  have doe: "0 \<le> doe" "doe < 146097" by (simp_all add: doe_def)
  note yp = yearOfEra_props[OF doe yd]
  note mdp = month_day_props[OF yp(3,4), folded mp_def]
  have m: "m = (if mp < 10 then mp + 3 else mp - 9)"
    and d: "d = doy - (153 * mp + 2) div 5 + 1"
    using cv yd unfolding mp_def doe_def
    by (auto simp: civilFromDays_def Let_def)
  from m d mdp show ?thesis by auto
qed

subsection \<open>ISO timestamps\<close>

text \<open>
  \<open>Date.prototype.toISOString\<close> writes the UTC fields of a time value as
  \<open>YYYY-MM-DDTHH:mm:ss.sssZ\<close>, with the expanded year \<open>+YYYYYY\<close> or \<open>-YYYYYY\<close> outside
  0..9999. \<open>Date_parse\<close> is \<open>new Date(text)\<close> on a text column: \<open>Some\<close> the time value of
  a timestamp in exactly that format, \<open>None\<close> (an Invalid Date) for every other text.
  Engines accept further date formats; the rows of this program are written by
  \<open>toISOString\<close> only.
\<close>

definition yearString :: "int \<Rightarrow> string" where
  "yearString y =
     (if 0 \<le> y \<and> y \<le> 9999 then padStart 4 (digits (nat y))
      else (if y < 0 then ''-'' else ''+'') @ padStart 6 (digits (nat \<bar>y\<bar>)))"

definition toISOString :: "date \<Rightarrow> string" where
  "toISOString t =
     (let (y, m, d) = civilFromDays (t div 86400000); ms = t mod 86400000
      in yearString y @ ''-'' @ pad2 (nat m) @ ''-'' @ pad2 (nat d) @ ''T''
         @ pad2 (nat (ms div 3600000)) @ '':'' @ pad2 (nat (ms div 60000 mod 60)) @ '':''
         @ pad2 (nat (ms div 1000 mod 60)) @ ''.'' @ pad3 (nat (ms mod 1000)) @ ''Z'')"

definition parseYear :: "string \<Rightarrow> int option" where
  "parseYear s =
     (case s of
        [] \<Rightarrow> None
      | c # cs \<Rightarrow>
          if c = CHR ''-'' then map_option (\<lambda>n. - int n) (parseDigits cs)
          else if c = CHR ''+'' then map_option int (parseDigits cs)
          else map_option int (parseDigits s))"

definition field :: "nat \<Rightarrow> nat \<Rightarrow> string \<Rightarrow> nat option" where
  "field i n s = parseDigits (take n (drop i s))"

definition parseFields :: "string \<Rightarrow> date option" where
  "parseFields s =
     (let k = length s - 20; r = drop k s
      in case (parseYear (take k s), field 1 2 r, field 4 2 r, field 7 2 r, field 10 2 r,
               field 13 2 r, field 16 3 r) of
           (Some y, Some m, Some d, Some hh, Some mm, Some ss, Some ms) \<Rightarrow>
             Some (daysFromCivil y (int m) (int d) * 86400000
                   + int hh * 3600000 + int mm * 60000 + int ss * 1000 + int ms)
         | _ \<Rightarrow> None)"

definition Date_parse :: "string \<Rightarrow> date option" where
  "Date_parse s =
     (case parseFields s of
        Some t \<Rightarrow> if toISOString t = s then Some t else None
      | None \<Rightarrow> None)"

lemma digitVal_digits: "c \<in> set (digits n) \<Longrightarrow> digitVal c \<noteq> None"
proof (induction n rule: digits.induct)
  case (1 n)
  show ?case
  proof (cases "n < 10")
    case True
    with "1.prems" show ?thesis by (simp add: digits.simps[of n] digitVal_digitChar)
  next
    case False
    have "n mod 10 < 10" by simp
    then have "digitVal (digitChar (n mod 10)) \<noteq> None" by (simp add: digitVal_digitChar)
    with False "1.prems" "1.IH" show ?thesis by (auto simp: digits.simps[of n])
  qed
qed

lemma digitVal_padStart: "c \<in> set (padStart w (digits n)) \<Longrightarrow> digitVal c \<noteq> None"
  by (auto simp: padStart_def digitVal_zero dest: digitVal_digits)

lemma padStart_digits_Cons:
  obtains c cs where "padStart w (digits n) = c # cs" "c \<noteq> CHR ''-''" "c \<noteq> CHR ''+''"
proof -
  have "padStart w (digits n) \<noteq> []" by (simp add: padStart_def digits_nonempty)
  then obtain c cs where e: "padStart w (digits n) = c # cs" by (cases "padStart w (digits n)") auto
  then have "c \<in> set (padStart w (digits n))" by simp
  then have "digitVal c \<noteq> None" by (rule digitVal_padStart)
  then have "c \<noteq> CHR ''-''" "c \<noteq> CHR ''+''" by (auto simp: digitVal_def)
  with e that show ?thesis by blast
qed

lemma parseYear_yearString: "parseYear (yearString y) = Some y"
proof (cases "0 \<le> y \<and> y \<le> 9999")
  case True
  obtain c cs where e: "padStart 4 (digits (nat y)) = c # cs" "c \<noteq> CHR ''-''" "c \<noteq> CHR ''+''"
    by (rule padStart_digits_Cons)
  have "parseDigits (c # cs) = Some (nat y)" using parseDigits_padStart[of 4 "nat y"] e(1) by simp
  with True e show ?thesis by (simp add: parseYear_def yearString_def)
next
  case False
  then show ?thesis
    by (auto simp: parseYear_def yearString_def parseDigits_padStart)
qed

lemma length2E: assumes "length (s::string) = 2" obtains a b where "s = [a, b]"
  using assms by (cases s; cases "tl s") auto

lemma length3E: assumes "length (s::string) = 3" obtains a b c where "s = [a, b, c]"
proof -
  from assms obtain a s' where s: "s = a # s'" "length s' = 2" by (cases s) auto
  from s(2) obtain b c where "s' = [b, c]" by (rule length2E)
  with s that show ?thesis by blast
qed

lemma parseFields_layout:
  assumes "length A = 2" "length B = 2" "length C = 2" "length D = 2" "length E = 2"
    "length F = 3"
  shows "parseFields (Y @ ''-'' @ A @ ''-'' @ B @ ''T'' @ C @ '':'' @ D @ '':'' @ E @ ''.'' @ F @ ''Z'')
       = (case (parseYear Y, parseDigits A, parseDigits B, parseDigits C, parseDigits D,
               parseDigits E, parseDigits F) of
           (Some y, Some m, Some d, Some hh, Some mm, Some ss, Some ms) \<Rightarrow>
             Some (daysFromCivil y (int m) (int d) * 86400000
                   + int hh * 3600000 + int mm * 60000 + int ss * 1000 + int ms)
         | _ \<Rightarrow> None)"
proof -
  from assms(1) obtain a1 a2 where A: "A = [a1, a2]" by (rule length2E)
  from assms(2) obtain b1 b2 where B: "B = [b1, b2]" by (rule length2E)
  from assms(3) obtain c1 c2 where C: "C = [c1, c2]" by (rule length2E)
  from assms(4) obtain d1 d2 where D: "D = [d1, d2]" by (rule length2E)
  from assms(5) obtain e1 e2 where E: "E = [e1, e2]" by (rule length2E)
  from assms(6) obtain f1 f2 f3 where F: "F = [f1, f2, f3]" by (rule length3E)
  show ?thesis unfolding A B C D E F parseFields_def Let_def field_def by simp
qed

lemma ms_of_day:
  fixes ms :: int
  shows "(ms div 3600000) * 3600000 + (ms div 60000 mod 60) * 60000
         + (ms div 1000 mod 60) * 1000 + ms mod 1000 = ms"
proof -
  have a: "ms div 60000 = ms div 1000 div 60" "ms div 3600000 = ms div 60000 div 60"
    by (simp_all add: zdiv_zmult2_eq[symmetric])
  have "ms = ms div 1000 * 1000 + ms mod 1000" by simp
  also have "ms div 1000 = ms div 60000 * 60 + ms div 1000 mod 60" unfolding a(1) by simp
  also have "ms div 60000 = ms div 3600000 * 60 + ms div 60000 mod 60" unfolding a(2) by simp
  finally have "ms = (ms div 3600000) * 3600000 + (ms div 60000 mod 60) * 60000
         + (ms div 1000 mod 60) * 1000 + ms mod 1000" by (simp add: algebra_simps)
  then show ?thesis by simp
qed

lemma field_lengths:
  fixes ms m d :: int
  assumes md: "1 \<le> m" "m \<le> 12" "1 \<le> d" "d \<le> 31" and msr: "0 \<le> ms" "ms < 86400000"
  shows "length (pad2 (nat m)) = 2" "length (pad2 (nat d)) = 2"
    "length (pad2 (nat (ms div 3600000))) = 2" "length (pad2 (nat (ms div 60000 mod 60))) = 2"
    "length (pad2 (nat (ms div 1000 mod 60))) = 2" "length (pad3 (nat (ms mod 1000))) = 3"
proof -
  have hr: "ms div 3600000 < 100" using msr by arith
  show "length (pad2 (nat m)) = 2" using md by (intro length_pad2) simp
  show "length (pad2 (nat d)) = 2" using md by (intro length_pad2) simp
  show "length (pad2 (nat (ms div 3600000))) = 2" using hr by (intro length_pad2) simp
  show "length (pad2 (nat (ms div 60000 mod 60))) = 2"
    by (intro length_pad2) (simp add: nat_less_iff)
  show "length (pad2 (nat (ms div 1000 mod 60))) = 2"
    by (intro length_pad2) (simp add: nat_less_iff)
  show "length (pad3 (nat (ms mod 1000))) = 3"
    by (intro length_pad3) (simp add: nat_less_iff)
qed

lemma fields_time_value:
  fixes ms m d :: int
  assumes md: "1 \<le> m" "m \<le> 12" "1 \<le> d" "d \<le> 31" and msr: "0 \<le> ms" "ms < 86400000"
    and dfc: "daysFromCivil y m d = t div 86400000"
  shows "daysFromCivil y (int (nat m)) (int (nat d)) * 86400000
       + int (nat (ms div 3600000)) * 3600000 + int (nat (ms div 60000 mod 60)) * 60000
       + int (nat (ms div 1000 mod 60)) * 1000 + int (nat (ms mod 1000))
       = t div 86400000 * 86400000 + ms"
proof -
  have n: "int (nat m) = m" "int (nat d) = d" using md by simp_all
  have h: "int (nat (ms div 3600000)) = ms div 3600000"
    using msr by (simp add: pos_imp_zdiv_nonneg_iff)
  have r: "int (nat (ms div 60000 mod 60)) = ms div 60000 mod 60"
    "int (nat (ms div 1000 mod 60)) = ms div 1000 mod 60" "int (nat (ms mod 1000)) = ms mod 1000"
    by simp_all
  show ?thesis unfolding n h r dfc using ms_of_day[of ms] by linarith
qed

lemma parseFields_toISOString: "parseFields (toISOString t) = Some t"
proof -
  obtain y m d where cv: "civilFromDays (t div 86400000) = (y, m, d)"
    by (cases "civilFromDays (t div 86400000)")
  define ms where "ms = t mod 86400000"
  have msr: "0 \<le> ms" "ms < 86400000" by (simp_all add: ms_def)
  from civilFromDays_ranges[OF cv] have md: "1 \<le> m" "m \<le> 12" "1 \<le> d" "d \<le> 31" by simp_all
  note l = field_lengths[OF md msr]
  have iso: "toISOString t = yearString y @ ''-'' @ pad2 (nat m) @ ''-'' @ pad2 (nat d) @ ''T''
         @ pad2 (nat (ms div 3600000)) @ '':'' @ pad2 (nat (ms div 60000 mod 60)) @ '':''
         @ pad2 (nat (ms div 1000 mod 60)) @ ''.'' @ pad3 (nat (ms mod 1000)) @ ''Z''"
    by (simp add: toISOString_def cv ms_def Let_def)
  have dfc: "daysFromCivil y m d = t div 86400000" by (rule daysFromCivil_civilFromDays[OF cv])
  have "parseFields (toISOString t) = Some (daysFromCivil y (int (nat m)) (int (nat d)) * 86400000
       + int (nat (ms div 3600000)) * 3600000 + int (nat (ms div 60000 mod 60)) * 60000
       + int (nat (ms div 1000 mod 60)) * 1000 + int (nat (ms mod 1000)))"
    unfolding iso parseFields_layout[OF l]
    by (simp only: parseYear_yearString pad2_def pad3_def parseDigits_padStart
        option.case prod.case)
  also have "\<dots> = Some (t div 86400000 * 86400000 + ms)"
    by (simp only: fields_time_value[OF md msr dfc])
  also have "\<dots> = Some t" by (simp add: ms_def)
  finally show ?thesis .
qed

lemma Date_parse_toISOString: "Date_parse (toISOString t) = Some t"
  by (simp add: Date_parse_def parseFields_toISOString)

section \<open>Text encodings of the platform: JSON arrays of day names\<close>

text \<open>
  \<open>JSON.stringify\<close> of a \<open>RepeatDay[]\<close> writes the day names as quoted strings, separated
  by commas, in brackets. \<open>JSON_parse\<close> is \<open>JSON.parse(text) as RepeatDay[]\<close>: \<open>Some\<close> the
  list for a text in exactly that form, \<open>None\<close> for every other text (the source throws
  a SyntaxError on a text that is no JSON, and carries any other JSON value on under an
  unchecked cast).
\<close>

fun dayName :: "RepeatDay \<Rightarrow> string" where
  "dayName Mon = ''Mon''"
| "dayName Tue = ''Tue''"
| "dayName Wed = ''Wed''"
| "dayName Thu = ''Thu''"
| "dayName Fri = ''Fri''"
| "dayName Sat = ''Sat''"
| "dayName Sun = ''Sun''"

definition parseDayName :: "string \<Rightarrow> RepeatDay option" where
  "parseDayName s =
     (if s = ''Mon'' then Some Mon else if s = ''Tue'' then Some Tue
      else if s = ''Wed'' then Some Wed else if s = ''Thu'' then Some Thu
      else if s = ''Fri'' then Some Fri else if s = ''Sat'' then Some Sat
      else if s = ''Sun'' then Some Sun else None)"

definition quoteChar :: char where
  "quoteChar = CHR 0x22"

definition quoted :: "string \<Rightarrow> string" where
  "quoted s = quoteChar # s @ [quoteChar]"

fun joinComma :: "string list \<Rightarrow> string" where
  "joinComma [] = []"
| "joinComma [x] = x"
| "joinComma (x # y # ys) = x @ CHR '','' # joinComma (y # ys)"

fun splitComma :: "string \<Rightarrow> string list" where
  "splitComma [] = [[]]"
| "splitComma (c # cs) =
     (if c = CHR '','' then [] # splitComma cs
      else (case splitComma cs of [] \<Rightarrow> [[c]] | x # xs \<Rightarrow> (c # x) # xs))"

definition JSON_stringify :: "RepeatDay list \<Rightarrow> string" where
  "JSON_stringify ds = CHR ''['' # joinComma (map (\<lambda>d. quoted (dayName d)) ds) @ '']''"

definition parseElement :: "string \<Rightarrow> RepeatDay option" where
  "parseElement e =
     (case e of
        [] \<Rightarrow> None
      | q # rest \<Rightarrow>
          if q = quoteChar \<and> rest \<noteq> [] \<and> last rest = quoteChar
          then parseDayName (butlast rest) else None)"

definition JSON_parse :: "string \<Rightarrow> RepeatDay list option" where
  "JSON_parse s =
     (case s of
        [] \<Rightarrow> None
      | b # rest \<Rightarrow>
          if b = CHR ''['' \<and> rest \<noteq> [] \<and> last rest = CHR '']''
          then (let body = butlast rest
                in if body = [] then Some [] else those (map parseElement (splitComma body)))
          else None)"

lemma parseDayName_dayName: "parseDayName (dayName d) = Some d"
  by (cases d) (simp_all add: parseDayName_def)

lemma parseElement_quoted: "parseElement (quoted (dayName d)) = Some d"
  by (simp add: parseElement_def quoted_def parseDayName_dayName)

lemma comma_free_dayName: "CHR '','' \<notin> set (quoted (dayName d))"
  by (cases d) (simp_all add: quoted_def quoteChar_def)

lemma splitComma_append_comma:
  "CHR '','' \<notin> set x \<Longrightarrow> splitComma (x @ CHR '','' # rest) = x # splitComma rest"
  by (induction x) auto

lemma splitComma_comma_free: "CHR '','' \<notin> set x \<Longrightarrow> splitComma x = [x]"
  by (induction x) auto

lemma splitComma_joinComma:
  "es \<noteq> [] \<Longrightarrow> \<forall>e\<in>set es. CHR '','' \<notin> set e \<Longrightarrow> splitComma (joinComma es) = es"
proof (induction es rule: joinComma.induct)
  case 1
  then show ?case by simp
next
  case (2 x)
  then show ?case by (simp add: splitComma_comma_free)
next
  case (3 x y ys)
  then show ?case by (simp add: splitComma_append_comma)
qed

lemma those_parseElement:
  "those (map (parseElement \<circ> (\<lambda>d. quoted (dayName d))) ds) = Some ds"
  by (induction ds) (simp_all add: parseElement_quoted)

lemma joinComma_nonempty: "ds \<noteq> [] \<Longrightarrow> joinComma (map (\<lambda>d. quoted (dayName d)) ds) \<noteq> []"
  by (induction ds rule: induct_list012) (simp_all add: quoted_def)

lemma JSON_parse_stringify: "JSON_parse (JSON_stringify ds) = Some ds"
proof (cases "ds = []")
  case True
  then show ?thesis by (simp add: JSON_parse_def JSON_stringify_def)
next
  case False
  let ?es = "map (\<lambda>d. quoted (dayName d)) ds"
  have ne: "joinComma ?es \<noteq> []" by (rule joinComma_nonempty[OF False])
  have sp: "splitComma (joinComma ?es) = ?es"
    using False by (intro splitComma_joinComma) (auto simp: comma_free_dayName)
  show ?thesis
    using ne by (simp add: JSON_parse_def JSON_stringify_def sp those_parseElement)
qed


section \<open>Alarm records (types/alarm.ts)\<close>

text \<open>The field \<open>id\<close> is written \<open>alarm_id\<close>; an absent \<open>notificationId\<close> is \<open>None\<close>.\<close>

record Alarm =
  alarm_id :: string
  time :: date
  label :: string
  enabled :: bool
  repeatDays :: "RepeatDay list"
  notificationId :: "string option"

section \<open>Rows and records (services/alarmStorage.ts)\<close>

datatype error =
    StoreFailure
  | ConstraintFailure
  | NotFound string
  | SyntaxError
  | InvalidDate
  | PlatformFailure
  | SecurityException

text \<open>
  A row of the table \<open>alarms\<close> (unnamed part 004): the columns \<open>rowToAlarm\<close> reads. The
  columns \<open>createdAt\<close> and \<open>updatedAt\<close> are written by the statements and never read.
\<close>

record row =
  row_id :: string
  row_time :: string
  row_label :: string
  row_enabled :: int
  row_repeatDays :: string
  row_notificationId :: "string option"

text \<open>JavaScript's \<open>x || y\<close> on an optional string: null, undefined and \<open>""\<close> are falsy.\<close>

definition orElse :: "string option \<Rightarrow> string option \<Rightarrow> string option" where
  "orElse x y = (case x of None \<Rightarrow> y | Some s \<Rightarrow> if s = [] then y else Some s)"

text \<open>
  \<open>rowToAlarm\<close>. \<open>JSON.parse\<close> throws on a text it cannot read (\<open>Inl SyntaxError\<close>). A
  \<open>time\<close> text that is no timestamp makes an Invalid Date in the source; the records of
  this model hold valid dates only, so such a row is reported as \<open>Inl InvalidDate\<close>.
\<close>

definition rowToAlarm :: "row \<Rightarrow> error + Alarm" where
  "rowToAlarm r =
     (case Date_parse (row_time r) of
        None \<Rightarrow> Inl InvalidDate
      | Some t \<Rightarrow>
          (case JSON_parse (row_repeatDays r) of
             None \<Rightarrow> Inl SyntaxError
           | Some days \<Rightarrow>
               Inr \<lparr> alarm_id = row_id r, time = t, label = row_label r,
                     enabled = (row_enabled r = 1), repeatDays = days,
                     notificationId = orElse (row_notificationId r) None \<rparr>))"

definition alarmToRow :: "Alarm \<Rightarrow> row" where
  "alarmToRow alarm =
     \<lparr> row_id = alarm_id alarm, row_time = toISOString (time alarm), row_label = label alarm,
       row_enabled = (if enabled alarm then 1 else 0),
       row_repeatDays = JSON_stringify (repeatDays alarm),
       row_notificationId = orElse (notificationId alarm) None \<rparr>"

lemma orElse_idem: "orElse (orElse x None) None = orElse x None"
  by (cases x) (simp_all add: orElse_def)

text \<open>What \<open>rowToAlarm\<close> reads from a row written by \<open>alarmToRow\<close>.\<close>

lemma rowToAlarm_written:
  "rowToAlarm (alarmToRow alarm) = Inr (alarm\<lparr>notificationId := orElse (notificationId alarm) None\<rparr>)"
  by (simp add: rowToAlarm_def alarmToRow_def Date_parse_toISOString JSON_parse_stringify
      orElse_idem)

text \<open>
  C10. For every Alarm whose \<open>notificationId\<close> is undefined or a non-empty string,
  \<open>alarmToRow\<close> followed by \<open>rowToAlarm\<close> yields the same Alarm: \<open>id\<close> and \<open>label\<close> verbatim,
  \<open>time\<close> through the ISO text, \<open>enabled\<close> through 1/0, \<open>repeatDays\<close> through the JSON text.
\<close>

theorem rowToAlarm_alarmToRow:
  assumes "notificationId alarm \<noteq> Some []"
  shows "rowToAlarm (alarmToRow alarm) = Inr alarm"
proof -
  have "orElse (notificationId alarm) None = notificationId alarm"
    using assms by (cases "notificationId alarm") (simp_all add: orElse_def)
  then show ?thesis by (simp add: rowToAlarm_written)
qed

text \<open>
  An alarm holding 1700000000123 (2023-11-14T22:13:20.123Z), repeating on Monday and
  Wednesday, with a native handle.
\<close>

theorem rowToAlarm_alarmToRow_witness:
  "notificationId \<lparr> alarm_id = ''1700000000123'', time = 1700000000123, label = ''Wake'',
       enabled = True, repeatDays = [Mon, Wed], notificationId = Some ''native-1700000000123'' \<rparr>
     \<noteq> Some []
 \<and> row_time (alarmToRow \<lparr> alarm_id = ''1700000000123'', time = 1700000000123, label = ''Wake'',
       enabled = True, repeatDays = [Mon, Wed], notificationId = Some ''native-1700000000123'' \<rparr>)
     = ''2023-11-14T22:13:20.123Z''
 \<and> row_enabled (alarmToRow \<lparr> alarm_id = ''1700000000123'', time = 1700000000123, label = ''Wake'',
       enabled = True, repeatDays = [Mon, Wed], notificationId = Some ''native-1700000000123'' \<rparr>)
     = 1
 \<and> rowToAlarm (alarmToRow \<lparr> alarm_id = ''1700000000123'', time = 1700000000123, label = ''Wake'',
       enabled = True, repeatDays = [Mon, Wed], notificationId = Some ''native-1700000000123'' \<rparr>)
     = Inr \<lparr> alarm_id = ''1700000000123'', time = 1700000000123, label = ''Wake'',
       enabled = True, repeatDays = [Mon, Wed], notificationId = Some ''native-1700000000123'' \<rparr>"
proof -
  have iso: "toISOString 1700000000123 = ''2023-11-14T22:13:20.123Z''"
    by code_simp
  show ?thesis
    using rowToAlarm_alarmToRow[of "\<lparr> alarm_id = ''1700000000123'', time = 1700000000123,
       label = ''Wake'', enabled = True, repeatDays = [Mon, Wed],
       notificationId = Some ''native-1700000000123'' \<rparr>"]
    by (simp add: alarmToRow_def iso)
qed

text \<open>
  The hypothesis is needed: the empty string is falsy, so an empty \<open>notificationId\<close> comes
  back as undefined.
\<close>

lemma empty_notificationId_lost:
  "rowToAlarm (alarmToRow \<lparr> alarm_id = ''1'', time = 0, label = [], enabled = False,
       repeatDays = [], notificationId = Some [] \<rparr>)
   = Inr \<lparr> alarm_id = ''1'', time = 0, label = [], enabled = False,
       repeatDays = [], notificationId = None \<rparr>"
  by (simp add: rowToAlarm_written orElse_def)

subsection \<open>An example record\<close>

text \<open>
  A one-time alarm with id 1, set for 07:00 UTC on the epoch day, enabled, carrying the
  handle of a native alarm; and its row.
\<close>

definition wakeAlarm :: Alarm where
  "wakeAlarm = \<lparr> alarm_id = ''1'', time = 25200000, label = ''Wake'', enabled = True,
       repeatDays = [], notificationId = Some ''native-1'' \<rparr>"

definition wakeRow :: row where
  "wakeRow = \<lparr> row_id = ''1'', row_time = ''1970-01-01T07:00:00.000Z'', row_label = ''Wake'',
       row_enabled = 1, row_repeatDays = ''[]'', row_notificationId = Some ''native-1'' \<rparr>"

lemma toISOString_wake: "toISOString 25200000 = ''1970-01-01T07:00:00.000Z''"
  by code_simp

lemma alarmToRow_wakeAlarm: "alarmToRow wakeAlarm = wakeRow"
  by (simp add: alarmToRow_def wakeAlarm_def wakeRow_def toISOString_wake JSON_stringify_def
      orElse_def)

lemma rowToAlarm_wakeRow: "rowToAlarm wakeRow = Inr wakeAlarm"
proof -
  have "rowToAlarm (alarmToRow wakeAlarm) = Inr wakeAlarm"
    unfolding rowToAlarm_written by (simp add: wakeAlarm_def orElse_def)
  then show ?thesis by (simp only: alarmToRow_wakeAlarm)
qed

section \<open>The store (unnamed part 004, services/alarmStorage.ts)\<close>

text \<open>
  The database handle and its table. The three flags say which calls of the store layer
  resolve: \<open>opens\<close> for \<open>getDatabase()\<close>, \<open>reads\<close> for the queries (\<open>getAllAsync\<close>,
  \<open>getFirstAsync\<close>), \<open>writes\<close> for the statements (\<open>runAsync\<close>); a call whose flag is off
  rejects with \<open>StoreFailure\<close>. The table keeps its rows in insertion order; \<open>id\<close> is its
  primary key.
\<close>

record database =
  opens :: bool
  reads :: bool
  writes :: bool
  table :: "row list"

definition getDatabase :: "database \<Rightarrow> error + database" where
  "getDatabase db = (if opens db then Inr db else Inl StoreFailure)"

text \<open>\<open>SELECT * FROM alarms ORDER BY time ASC\<close>\<close>

definition selectAll :: "database \<Rightarrow> error + row list" where
  "selectAll db = (if reads db then Inr (sort_key row_time (table db)) else Inl StoreFailure)"



text \<open>\<open>SELECT * FROM alarms WHERE id = ?\<close>, first row\<close>

definition selectById :: "database \<Rightarrow> string \<Rightarrow> error + row option" where
  "selectById db i = (if reads db then Inr (find (\<lambda>r. row_id r = i) (table db)) else Inl StoreFailure)"






text \<open>\<open>UPDATE alarms SET enabled = ? WHERE id = ?\<close>\<close>

definition updateEnabled :: "database \<Rightarrow> int \<Rightarrow> string \<Rightarrow> error + database" where
  "updateEnabled db v i =
     (if \<not> writes db then Inl StoreFailure
      else Inr (db\<lparr>table := map (\<lambda>r. if row_id r = i then r\<lparr>row_enabled := v\<rparr> else r) (table db)\<rparr>))"

text \<open>\<open>result.map(rowToAlarm)\<close>: the first row that cannot be converted throws.\<close>

fun mapRowToAlarm :: "row list \<Rightarrow> error + Alarm list" where
  "mapRowToAlarm [] = Inr []"
| "mapRowToAlarm (r # rs) =
     (case rowToAlarm r of
        Inl e \<Rightarrow> Inl e
      | Inr alarm \<Rightarrow> (case mapRowToAlarm rs of Inl e \<Rightarrow> Inl e | Inr alarms \<Rightarrow> Inr (alarm # alarms)))"

text \<open>
  The read operations: every error inside \<open>try\<close> is caught and replaced by the empty
  result.
\<close>

definition getAlarms :: "database \<Rightarrow> Alarm list" where
  "getAlarms db =
     (case getDatabase db of
        Inl e \<Rightarrow> []
      | Inr d \<Rightarrow>
          (case selectAll d of
             Inl e \<Rightarrow> []
           | Inr result \<Rightarrow> (case mapRowToAlarm result of Inl e \<Rightarrow> [] | Inr alarms \<Rightarrow> alarms)))"


definition getAlarmById :: "database \<Rightarrow> string \<Rightarrow> Alarm option" where
  "getAlarmById db i =
     (case getDatabase db of
        Inl e \<Rightarrow> None
      | Inr d \<Rightarrow>
          (case selectById d i of
             Inl e \<Rightarrow> None
           | Inr None \<Rightarrow> None
           | Inr (Some result) \<Rightarrow>
               (case rowToAlarm result of Inl e \<Rightarrow> None | Inr alarm \<Rightarrow> Some alarm)))"






definition toggleAlarm :: "database \<Rightarrow> string \<Rightarrow> (error + Alarm list) \<times> database" where
  "toggleAlarm db i =
     (case getDatabase db of
        Inl e \<Rightarrow> (Inl e, db)
      | Inr d \<Rightarrow>
          (case getAlarmById db i of
             None \<Rightarrow> (Inl (NotFound i), db)
           | Some alarm \<Rightarrow>
               (let newEnabledState = (if enabled alarm then 0 else 1)
                in case updateEnabled d newEnabledState i of
                     Inl e \<Rightarrow> (Inl e, db)
                   | Inr db' \<Rightarrow> (Inr (getAlarms db'), db'))))"



lemma find_absent: "i \<notin> row_id ` set rows \<Longrightarrow> find (\<lambda>r. row_id r = i) rows = None"
  by (induction rows) auto

lemma getAlarmById_absent: "i \<notin> row_id ` set (table db) \<Longrightarrow> getAlarmById db i = None"
  by (simp add: getAlarmById_def getDatabase_def selectById_def find_absent)









section \<open>The platform\<close>

text \<open>
  What the Android alarm manager holds for one pending alarm: the extras of the intent
  (\<open>alarmId\<close>, \<open>label\<close>, \<open>isRepeating\<close>) and the trigger time.
\<close>

record nativeAlarm =
  na_id :: string
  na_label :: string
  na_triggerTime :: int
  na_isRepeating :: bool

text \<open>
  A notification request of expo-notifications: its identifier, the body, the data
  (\<open>alarmId\<close>, \<open>label\<close>, \<open>isSnooze\<close>) and the trigger (a repeating calendar trigger at
  hour and minute, or a date).
\<close>

datatype trigger = CalendarTrigger int int | DateTrigger date

record notificationRequest =
  nr_identifier :: string
  nr_body :: string
  nr_alarmId :: string
  nr_label :: string
  nr_isSnooze :: bool
  nr_trigger :: trigger

datatype gatewayCall =
    CanScheduleExactAlarms
  | RequestExactAlarmPermission
  | ScheduleAlarm
  | CancelAlarm
  | Notifications

text \<open>
  The state of the device as the services see it. \<open>clock\<close> is what \<open>new Date()\<close> and
  \<open>Date.now()\<close> read, \<open>tzOffset\<close> the offset of local time. \<open>android\<close> is
  \<open>Platform.OS === 'android'\<close>, \<open>nativeModule\<close> says that \<open>NativeModules.AlarmModule\<close> is
  defined. \<open>notificationsGranted\<close> and \<open>exactAllowed\<close> are the two permissions,
  \<open>userGrantsNotifications\<close> the user's answer to the notification dialog.
  \<open>rejecting\<close> lists the gateway calls that reject. \<open>alarmManager\<close> holds the pending
  native alarms by the request code of their pending intent, \<open>scheduledNotifications\<close> the
  scheduled notification requests; \<open>identifiers\<close> is the sequence of identifiers the
  notification library hands out and \<open>issued\<close> counts those handed out so far.
\<close>

record platform =
  clock :: date
  tzOffset :: int
  android :: bool
  nativeModule :: bool
  notificationsGranted :: bool
  userGrantsNotifications :: bool
  exactAllowed :: bool
  rejecting :: "gatewayCall list"
  alarmManager :: "(32 word \<times> nativeAlarm) list"
  scheduledNotifications :: "notificationRequest list"
  identifiers :: "nat \<Rightarrow> string"
  issued :: nat

subsection \<open>The native module (unnamed part 002: AlarmModule.java)\<close>

text \<open>Java's \<open>String.hashCode\<close>: 31-adic, in 32-bit arithmetic.\<close>

definition hashCode :: "string \<Rightarrow> 32 word" where
  "hashCode s = foldl (\<lambda>h c. 31 * h + of_char c) 0 s"

definition java_canScheduleExactAlarms :: "platform \<Rightarrow> error + bool" where
  "java_canScheduleExactAlarms p =
     (if CanScheduleExactAlarms \<in> set (rejecting p) then Inl PlatformFailure
      else Inr (exactAllowed p))"

text \<open>
  \<open>requestExactAlarmPermission\<close> starts the settings activity when the permission is
  missing and resolves at once: the permission is as it was when the call returns.
\<close>

definition java_requestExactAlarmPermission :: "platform \<Rightarrow> error + platform" where
  "java_requestExactAlarmPermission p =
     (if RequestExactAlarmPermission \<in> set (rejecting p) then Inl PlatformFailure
      else Inr p)"

text \<open>
  The alarm manager's \<open>setExactAndAllowWhileIdle\<close> (\<open>setExact\<close> before Android 6). An
  exact alarm needs the permission that \<open>canScheduleExactAlarms\<close> reports: without it
  the call throws a \<open>SecurityException\<close> (Android 12 and later; on older versions the
  permission is always there). Otherwise the alarm is set for the pending intent, and
  replaces the alarm the pending intent had.
\<close>

definition setExactAndAllowWhileIdle :: "platform \<Rightarrow> 32 word \<Rightarrow> nativeAlarm \<Rightarrow> error + platform" where
  "setExactAndAllowWhileIdle p requestCode pendingIntent =
     (if \<not> exactAllowed p then Inl SecurityException
      else Inr (p\<lparr>alarmManager :=
                    (requestCode, pendingIntent)
                    # filter (\<lambda>(code, pending). code \<noteq> requestCode) (alarmManager p)\<rparr>))"

text \<open>
  \<open>scheduleAlarm\<close>: the pending intent is identified by its request code
  \<open>alarmId.hashCode()\<close> (the intents do not differ otherwise) and \<open>FLAG_UPDATE_CURRENT\<close>
  replaces the extras. Every exception is caught and rejects the promise.
\<close>

definition java_scheduleAlarm :: "platform \<Rightarrow> nativeAlarm \<Rightarrow> error + platform" where
  "java_scheduleAlarm p alarmData =
     (if ScheduleAlarm \<in> set (rejecting p) then Inl PlatformFailure
      else
        let requestCode = hashCode (na_id alarmData)
        in case setExactAndAllowWhileIdle p requestCode alarmData of
             Inl e \<Rightarrow> Inl PlatformFailure
           | Inr p' \<Rightarrow> Inr p')"

definition java_cancelAlarm :: "platform \<Rightarrow> string \<Rightarrow> error + platform" where
  "java_cancelAlarm p alarmId =
     (if CancelAlarm \<in> set (rejecting p) then Inl PlatformFailure
      else
        let requestCode = hashCode alarmId
        in Inr (p\<lparr>alarmManager :=
                    filter (\<lambda>(code, pending). code \<noteq> requestCode) (alarmManager p)\<rparr>))"

subsection \<open>The wrapper (services/nativeAlarmModule.ts)\<close>

definition isAvailable :: "platform \<Rightarrow> bool" where
  "isAvailable p \<longleftrightarrow> android p \<and> nativeModule p"

definition canScheduleExactAlarms :: "platform \<Rightarrow> bool" where
  "canScheduleExactAlarms p =
     (if \<not> isAvailable p then False
      else case java_canScheduleExactAlarms p of Inl e \<Rightarrow> False | Inr b \<Rightarrow> b)"

definition AlarmModule_requestExactAlarmPermission :: "platform \<Rightarrow> error + platform" where
  "AlarmModule_requestExactAlarmPermission p =
     (if \<not> isAvailable p then Inr p else java_requestExactAlarmPermission p)"

definition scheduleAlarm :: "platform \<Rightarrow> nativeAlarm \<Rightarrow> error + platform" where
  "scheduleAlarm p alarmData =
     (if \<not> isAvailable p then Inl PlatformFailure else java_scheduleAlarm p alarmData)"

definition cancelAlarm :: "platform \<Rightarrow> string \<Rightarrow> error + platform" where
  "cancelAlarm p alarmId =
     (if \<not> isAvailable p then Inr p else java_cancelAlarm p alarmId)"

subsection \<open>The notification library (expo-notifications)\<close>

text \<open>
  \<open>scheduleNotificationAsync\<close> stores the request under the next identifier and returns
  the identifier; \<open>cancelScheduledNotificationAsync\<close> removes the request of an
  identifier.
\<close>

definition scheduleNotificationAsync :: "platform \<Rightarrow> notificationRequest \<Rightarrow> error + string \<times> platform" where
  "scheduleNotificationAsync p request =
     (if Notifications \<in> set (rejecting p) then Inl PlatformFailure
      else
        let identifier = identifiers p (issued p)
        in Inr (identifier,
                p\<lparr>scheduledNotifications :=
                     scheduledNotifications p @ [request\<lparr>nr_identifier := identifier\<rparr>],
                   issued := issued p + 1\<rparr>))"

definition cancelScheduledNotificationAsync :: "platform \<Rightarrow> string \<Rightarrow> error + platform" where
  "cancelScheduledNotificationAsync p identifier =
     (if Notifications \<in> set (rejecting p) then Inl PlatformFailure
      else Inr (p\<lparr>scheduledNotifications :=
                    filter (\<lambda>r. nr_identifier r \<noteq> identifier) (scheduledNotifications p)\<rparr>))"

section \<open>The notification service (services/notificationService.ts)\<close>

text \<open>JavaScript's \<open>s || d\<close> on a string: the empty string is falsy.\<close>

definition orDefault :: "string \<Rightarrow> string \<Rightarrow> string" where
  "orDefault s d = (if s = [] then d else s)"

definition startsWith :: "string \<Rightarrow> string \<Rightarrow> bool" where
  "startsWith s pre \<longleftrightarrow> take (length pre) s = pre"

text \<open>
  \<open>requestPermissions\<close>: the status, after asking the user when it is not granted. With
  the permission granted on Android the channel is set up again (no state of the model).
\<close>

definition requestPermissions :: "platform \<Rightarrow> error + bool \<times> platform" where
  "requestPermissions p =
     (if Notifications \<in> set (rejecting p) then Inl PlatformFailure
      else if notificationsGranted p then Inr (True, p)
      else Inr (userGrantsNotifications p, p\<lparr>notificationsGranted := userGrantsNotifications p\<rparr>))"

definition requestExactAlarmPermission :: "platform \<Rightarrow> error + bool \<times> platform" where
  "requestExactAlarmPermission p =
     (if \<not> isAvailable p then Inr (True, p)
      else if \<not> canScheduleExactAlarms p then
        (case AlarmModule_requestExactAlarmPermission p of
           Inl e \<Rightarrow> Inl e
         | Inr p' \<Rightarrow> Inr (canScheduleExactAlarms p', p'))
      else Inr (True, p))"

text \<open>
  \<open>cancelNotification\<close> catches every error. For a handle that starts with \<open>native-\<close>
  the alarm id is the rest of the handle (\<open>replace\<close> removes the first occurrence, which
  is the prefix).
\<close>

definition cancelNotification :: "platform \<Rightarrow> string \<Rightarrow> platform" where
  "cancelNotification p notificationIdent =
     (if startsWith notificationIdent ''native-'' then
        (let alarmId = drop (length ''native-'') notificationIdent
         in if isAvailable p then (case cancelAlarm p alarmId of Inl e \<Rightarrow> p | Inr p' \<Rightarrow> p')
            else p)
      else (case cancelScheduledNotificationAsync p notificationIdent of
              Inl e \<Rightarrow> p
            | Inr p' \<Rightarrow> p'))"

text \<open>
  The trigger of a one-time alarm, in \<open>scheduleNativeAlarm\<close> and in the fallback of
  \<open>scheduleAlarmNotification\<close>: the stored date, moved by one day when it is before now.
\<close>

definition oneTimeTrigger :: "platform \<Rightarrow> Alarm \<Rightarrow> date" where
  "oneTimeTrigger p alarm =
     (let triggerDate = time alarm
      in if triggerDate < clock p then nextDate triggerDate else triggerDate)"

definition scheduleNativeAlarm :: "platform \<Rightarrow> Alarm \<Rightarrow> error + platform" where
  "scheduleNativeAlarm p alarm =
     (if \<not> isAvailable p then Inl PlatformFailure
      else
        let isRepeating = length (repeatDays alarm) > 0;
            triggerDate =
              (if isRepeating
               then getNextOccurrence (tzOffset p) (clock p) (time alarm) (repeatDays alarm)
               else oneTimeTrigger p alarm)
        in scheduleAlarm p
             \<lparr> na_id = alarm_id alarm, na_label = orDefault (label alarm) ''Alarm'',
               na_triggerTime = triggerDate, na_isRepeating = isRepeating \<rparr>)"

text \<open>
  \<open>scheduleAlarmNotification\<close>: the handle, or \<open>None\<close> for \<open>null\<close>, and the platform
  afterwards. Every error inside \<open>try\<close> is caught and answered with \<open>null\<close>. The result
  of \<open>requestExactAlarmPermission\<close> is not read.
\<close>

definition scheduleAlarmNotification :: "platform \<Rightarrow> Alarm \<Rightarrow> string option \<times> platform" where
  "scheduleAlarmNotification p alarm =
     (case requestPermissions p of
        Inl e \<Rightarrow> (None, p)
      | Inr (hasPermission, p1) \<Rightarrow>
          if \<not> hasPermission then (None, p1)
          else
            (case requestExactAlarmPermission p1 of
               Inl e \<Rightarrow> (None, p1)
             | Inr (canSchedule, p2) \<Rightarrow>
                 let p3 = (case orElse (notificationId alarm) None of
                             None \<Rightarrow> p2
                           | Some existing \<Rightarrow> cancelNotification p2 existing);
                     hour = getHours (tzOffset p3) (time alarm);
                     minute = getMinutes (tzOffset p3) (time alarm)
                 in if isAvailable p3 then
                      (case scheduleNativeAlarm p3 alarm of
                         Inl e \<Rightarrow> (None, p3)
                       | Inr p4 \<Rightarrow> (Some (''native-'' @ alarm_id alarm), p4))
                    else
                      (case scheduleNotificationAsync p3
                              \<lparr> nr_identifier = [],
                                nr_body = orDefault (label alarm) ''Time to wake up!'',
                                nr_alarmId = alarm_id alarm, nr_label = label alarm,
                                nr_isSnooze = False,
                                nr_trigger =
                                  (if length (repeatDays alarm) > 0
                                   then CalendarTrigger hour minute
                                   else DateTrigger (oneTimeTrigger p3 alarm)) \<rparr> of
                         Inl e \<Rightarrow> (None, p3)
                       | Inr (ident, p4) \<Rightarrow> (Some ident, p4))))"

text \<open>The parameter object of \<open>scheduleSnoozeNotification\<close>.\<close>

record snoozeParams =
  sp_time :: date
  sp_label :: string
  sp_alarmId :: string

definition scheduleSnoozeNotification :: "platform \<Rightarrow> snoozeParams \<Rightarrow> string option \<times> platform" where
  "scheduleSnoozeNotification p params =
     (if isAvailable p then
        (case scheduleAlarm p
                \<lparr> na_id = ''snooze-'' @ sp_alarmId params,
                  na_label = orDefault (sp_label params) ''Snooze Alarm'',
                  na_triggerTime = sp_time params, na_isRepeating = False \<rparr> of
           Inl e \<Rightarrow> (None, p)
         | Inr p' \<Rightarrow> (Some (''native-snooze-'' @ sp_alarmId params), p'))
      else
        (case scheduleNotificationAsync p
                \<lparr> nr_identifier = [],
                  nr_body = orDefault (sp_label params) ''Time to wake up!'',
                  nr_alarmId = sp_alarmId params, nr_label = sp_label params,
                  nr_isSnooze = True, nr_trigger = DateTrigger (sp_time params) \<rparr> of
           Inl e \<Rightarrow> (None, p)
         | Inr (ident, p') \<Rightarrow> (Some ident, p')))"

definition cancelAlarmNotifications :: "platform \<Rightarrow> Alarm \<Rightarrow> platform" where
  "cancelAlarmNotifications p alarm =
     (case orElse (notificationId alarm) None of
        None \<Rightarrow> p
      | Some existing \<Rightarrow> cancelNotification p existing)"


section \<open>The alarm event service (unnamed part 005)\<close>

record AlarmEvent =
  eventType :: string
  ev_alarmId :: string

text \<open>
  \<open>handleDismiss\<close> and \<open>handleSnooze\<close> catch every error; \<open>toggleAlarm\<close> leaves the
  database as it was when it throws.
\<close>

definition handleDismiss :: "database \<Rightarrow> platform \<Rightarrow> string \<Rightarrow> database \<times> platform" where
  "handleDismiss db p alarmId =
     (case getAlarmById db alarmId of
        None \<Rightarrow> (db, p)
      | Some alarm \<Rightarrow>
          if length (repeatDays alarm) = 0 then (snd (toggleAlarm db alarmId), p)
          else (db, snd (scheduleAlarmNotification p alarm)))"

definition handleSnooze :: "database \<Rightarrow> platform \<Rightarrow> string \<Rightarrow> database \<times> platform" where
  "handleSnooze db p alarmId =
     (case getAlarmById db alarmId of
        None \<Rightarrow> (db, p)
      | Some alarm \<Rightarrow>
          let snoozeTime = clock p + 5 * 60 * 1000
          in (db, snd (scheduleSnoozeNotification p
                         \<lparr> sp_time = snoozeTime, sp_label = orDefault (label alarm) ''Alarm'',
                           sp_alarmId = alarm_id alarm \<rparr>)))"

text \<open>
  \<open>handleAlarmEvent\<close>: the handler the \<open>switch\<close> calls for an event, with its argument;
  for an unknown event type a warning is logged and no handler is called. The listener
  registered by \<open>initialize\<close> calls \<open>handleAlarmEvent\<close> for every event it is given and does
  not await it: \<open>listener\<close> gives the handler calls started for a sequence of events. The
  handlers above are single runs; what overlapping runs do to the store is outside the
  model.
\<close>

datatype handlerCall = HandleDismiss string | HandleSnooze string

definition handleAlarmEvent :: "AlarmEvent \<Rightarrow> handlerCall option" where
  "handleAlarmEvent event =
     (if eventType event = ''ALARM_DISMISSED'' then Some (HandleDismiss (ev_alarmId event))
      else if eventType event = ''ALARM_SNOOZED'' then Some (HandleSnooze (ev_alarmId event))
      else None)"

definition listener :: "AlarmEvent list \<Rightarrow> handlerCall list" where
  "listener events = List.map_filter handleAlarmEvent events"

section \<open>The native alarm screen (AlarmReceiver.java, unnamed part 000, AlarmEventModule.java)\<close>

text \<open>
  The buttons of \<open>AlarmActivity\<close> broadcast one event each. \<open>AlarmEventModule\<close> passes a
  broadcast on to JavaScript when the runtime is active (\<open>hasActiveCatalystInstance\<close>);
  otherwise it logs a warning and the event is gone.
\<close>

definition activity_handleDismiss :: "string \<Rightarrow> AlarmEvent" where
  "activity_handleDismiss alarmId = \<lparr> eventType = ''ALARM_DISMISSED'', ev_alarmId = alarmId \<rparr>"

definition activity_handleSnooze :: "string \<Rightarrow> AlarmEvent" where
  "activity_handleSnooze alarmId = \<lparr> eventType = ''ALARM_SNOOZED'', ev_alarmId = alarmId \<rparr>"

text \<open>
  What the user sees of a native alarm: the alarm screen on top (with the \<open>alarmId\<close> of its
  intent) and the notification posted under \<open>NOTIFICATION_ID\<close>. \<open>AlarmReceiver.onReceive\<close>
  posts the notification, whose content intent opens the alarm screen, and starts the
  alarm screen directly; the intent clears the top, so one alarm screen is open at a time.
  Tapping the notification opens the alarm screen and removes the notification
  (\<open>setAutoCancel\<close>). The buttons of the alarm screen broadcast their event and finish the
  screen; the notification is not cancelled.
\<close>

record alarmUi =
  ui_screen :: "string option"
  ui_notification :: "string option"

definition AlarmReceiver_onReceive :: "alarmUi \<Rightarrow> string \<Rightarrow> alarmUi" where
  "AlarmReceiver_onReceive ui alarmId = \<lparr> ui_screen = Some alarmId, ui_notification = Some alarmId \<rparr>"

definition tapNotification :: "alarmUi \<Rightarrow> alarmUi" where
  "tapNotification ui =
     (case ui_notification ui of
        None \<Rightarrow> ui
      | Some alarmId \<Rightarrow> \<lparr> ui_screen = Some alarmId, ui_notification = None \<rparr>)"

definition pressDismiss :: "alarmUi \<Rightarrow> AlarmEvent list \<times> alarmUi" where
  "pressDismiss ui =
     (case ui_screen ui of
        None \<Rightarrow> ([], ui)
      | Some alarmId \<Rightarrow> ([activity_handleDismiss alarmId], ui\<lparr>ui_screen := None\<rparr>))"

definition pressSnooze :: "alarmUi \<Rightarrow> AlarmEvent list \<times> alarmUi" where
  "pressSnooze ui =
     (case ui_screen ui of
        None \<Rightarrow> ([], ui)
      | Some alarmId \<Rightarrow> ([activity_handleSnooze alarmId], ui\<lparr>ui_screen := None\<rparr>))"

definition onReceive :: "bool \<Rightarrow> AlarmEvent \<Rightarrow> AlarmEvent list" where
  "onReceive hasActiveCatalystInstance event = (if hasActiveCatalystInstance then [event] else [])"

text \<open>The events the module emits to JavaScript for a sequence of broadcasts.\<close>

definition emitted :: "bool \<Rightarrow> AlarmEvent list \<Rightarrow> AlarmEvent list" where
  "emitted hasActiveCatalystInstance broadcasts
     = concat (map (onReceive hasActiveCatalystInstance) broadcasts)"

section \<open>The ringing screen (app/alarm-ring.tsx)\<close>

definition ring_handleDismiss :: "database \<Rightarrow> string \<Rightarrow> database" where
  "ring_handleDismiss db alarmId =
     (if alarmId \<noteq> [] then
        (case getAlarmById db alarmId of
           None \<Rightarrow> db
         | Some alarm \<Rightarrow>
             if length (repeatDays alarm) = 0 then snd (toggleAlarm db alarmId) else db)
      else db)"

definition ring_handleSnooze :: "platform \<Rightarrow> string \<Rightarrow> string \<Rightarrow> platform" where
  "ring_handleSnooze p alarmLabel alarmId =
     (let snoozeTime = clock p + 5 * 60 * 1000
      in snd (scheduleSnoozeNotification p
                \<lparr> sp_time = snoozeTime, sp_label = alarmLabel, sp_alarmId = alarmId \<rparr>))"

section \<open>The root layout (unnamed part 003)\<close>

text \<open>
  The callbacks \<open>RootLayout\<close> registers, each with the data it reads: the \<open>alarmId\<close> and
  \<open>label\<close> of a notification's data (absent when the data has none), and for a deep link
  the url with its search parameters \<open>id\<close> and \<open>label\<close>. The route stack holds the
  parameters of the ringing screens pushed.
\<close>

datatype callback =
    DeepLink string "string option" "string option"
  | LastNotificationResponse "string option" "string option"
  | NotificationReceived "string option" "string option"
  | NotificationResponseReceived "string option" "string option"

record ringParams =
  rp_id :: string
  rp_label :: string

definition includesText :: "string \<Rightarrow> string \<Rightarrow> bool" where
  "includesText s sub \<longleftrightarrow> list_ex (\<lambda>i. startsWith (drop i s) sub) [0 ..< Suc (length s)]"

definition orString :: "string option \<Rightarrow> string \<Rightarrow> string" where
  "orString x d = (case orElse x None of None \<Rightarrow> d | Some s \<Rightarrow> s)"

fun onCallback :: "ringParams list \<Rightarrow> callback \<Rightarrow> ringParams list" where
  "onCallback stack (DeepLink url ident lbl) =
     (if includesText url ''alarm-ring''
      then stack @ [\<lparr> rp_id = orString ident [], rp_label = orString lbl ''Alarm'' \<rparr>]
      else stack)"
| "onCallback stack (LastNotificationResponse alarmId lbl) =
     stack @ [\<lparr> rp_id = orString alarmId [], rp_label = orString lbl ''Alarm'' \<rparr>]"
| "onCallback stack (NotificationReceived alarmId lbl) =
     stack @ [\<lparr> rp_id = orString alarmId [], rp_label = orString lbl ''Alarm'' \<rparr>]"
| "onCallback stack (NotificationResponseReceived alarmId lbl) =
     stack @ [\<lparr> rp_id = orString alarmId [], rp_label = orString lbl ''Alarm'' \<rparr>]"

section \<open>Dismissing and the events\<close>

subsection \<open>Toggling a stored record\<close>

lemma rowToAlarm_row_enabled:
  "rowToAlarm (r\<lparr>row_enabled := v\<rparr>) =
     (case rowToAlarm r of Inl e \<Rightarrow> Inl e | Inr a \<Rightarrow> Inr (a\<lparr>enabled := (v = 1)\<rparr>))"
  by (simp add: rowToAlarm_def split: option.splits)

lemma find_update_enabled:
  "find (\<lambda>r. row_id r = i) (map (\<lambda>r. if row_id r = i then r\<lparr>row_enabled := v\<rparr> else r) rows)
     = map_option (\<lambda>r. r\<lparr>row_enabled := v\<rparr>) (find (\<lambda>r. row_id r = i) rows)"
  by (induction rows) auto

lemma getAlarmById_updateEnabled:
  assumes "getAlarmById db i = Some a" "updateEnabled db v i = Inr db'"
  shows "getAlarmById db' i = Some (a\<lparr>enabled := (v = 1)\<rparr>)"
proof -
  from assms(1) have o: "opens db" "reads db"
    by (auto simp: getAlarmById_def getDatabase_def selectById_def split: if_splits)
  from assms(1) o obtain r where r: "find (\<lambda>r. row_id r = i) (table db) = Some r"
      "rowToAlarm r = Inr a"
    by (auto simp: getAlarmById_def getDatabase_def selectById_def
        split: option.splits sum.splits)
  from assms(2) have db': "db' = db\<lparr>table := map (\<lambda>r. if row_id r = i then r\<lparr>row_enabled := v\<rparr> else r) (table db)\<rparr>"
    by (auto simp: updateEnabled_def split: if_splits)
  show ?thesis
    using o r by (simp add: db' getAlarmById_def getDatabase_def selectById_def
        find_update_enabled rowToAlarm_row_enabled)
qed

lemma toggleAlarm_found:
  assumes "getAlarmById db i = Some a" "writes db"
  shows "getAlarmById (snd (toggleAlarm db i)) i = Some (a\<lparr>enabled := \<not> enabled a\<rparr>)"
proof -
  from assms(1) have o: "opens db"
    by (auto simp: getAlarmById_def getDatabase_def split: if_splits)
  let ?v = "if enabled a then 0 else (1::int)"
  obtain db' where u: "updateEnabled db ?v i = Inr db'"
    using assms(2) by (simp add: updateEnabled_def)
  have t: "snd (toggleAlarm db i) = db'"
    using o assms(1) u by (simp add: toggleAlarm_def getDatabase_def Let_def)
  have "(?v = 1) = (\<not> enabled a)" by simp
  with getAlarmById_updateEnabled[OF assms(1) u] show ?thesis unfolding t by simp
qed

lemma toggleAlarm_writes: "writes (snd (toggleAlarm db i)) = writes db"
  by (auto simp: toggleAlarm_def getDatabase_def updateEnabled_def Let_def
      split: option.splits if_splits)

subsection \<open>Example state\<close>

text \<open>
  A working store holding the example row, and an Android phone with the native module,
  both permissions granted and nothing scheduled; the clock reads 06:00 on the epoch day.
\<close>

definition wakeDb :: database where
  "wakeDb = \<lparr> opens = True, reads = True, writes = True, table = [wakeRow] \<rparr>"

definition phone :: platform where
  "phone = \<lparr> clock = 21600000, tzOffset = 0, android = True, nativeModule = True,
       notificationsGranted = True, userGrantsNotifications = True,
       exactAllowed = True, rejecting = [],
       alarmManager = [], scheduledNotifications = [],
       identifiers = (\<lambda>n. ''expo-'' @ digits n), issued = 0 \<rparr>"

lemma getAlarmById_wakeDb: "getAlarmById wakeDb ''1'' = Some wakeAlarm"
  by (simp add: getAlarmById_def getDatabase_def selectById_def wakeDb_def rowToAlarm_wakeRow)
     (simp add: wakeRow_def)

text \<open>
  C3. Claim: after a one-time alarm fires and is dismissed, the record has
  \<open>enabled = false\<close> and its \<open>notificationId\<close> cleared. \<open>handleDismiss\<close> calls
  \<open>toggleAlarm\<close>, whose statement sets the column \<open>enabled\<close> only: the handle stays in the
  record.
\<close>

theorem handleDismiss_keeps_notificationId:
  "map_option enabled (getAlarmById (fst (handleDismiss wakeDb phone ''1'')) ''1'') = Some False
 \<and> map_option notificationId (getAlarmById (fst (handleDismiss wakeDb phone ''1'')) ''1'')
     = Some (Some ''native-1'')"
proof -
  have w: "writes wakeDb" by (simp add: wakeDb_def)
  have d: "fst (handleDismiss wakeDb phone ''1'') = snd (toggleAlarm wakeDb ''1'')"
    by (simp add: handleDismiss_def getAlarmById_wakeDb wakeAlarm_def)
  show ?thesis
    unfolding d toggleAlarm_found[OF getAlarmById_wakeDb w] by (simp add: wakeAlarm_def)
qed

text \<open>
  C3, as the code has it: when an enabled one-time alarm of a writable store is
  dismissed, the record ends with \<open>enabled = false\<close> and every other field as before,
  the handle \<open>notificationId\<close> included; the platform is not touched.
\<close>

theorem handleDismiss_one_time:
  assumes "getAlarmById db alarmId = Some alarm" "repeatDays alarm = []" "enabled alarm"
    "writes db"
  shows "getAlarmById (fst (handleDismiss db p alarmId)) alarmId = Some (alarm\<lparr>enabled := False\<rparr>)
       \<and> snd (handleDismiss db p alarmId) = p"
proof -
  have d: "handleDismiss db p alarmId = (snd (toggleAlarm db alarmId), p)"
    using assms(1,2) by (simp add: handleDismiss_def)
  show ?thesis
    unfolding d using toggleAlarm_found[OF assms(1,4)] assms(3) by simp
qed

theorem handleDismiss_one_time_witness:
  "getAlarmById wakeDb ''1'' = Some wakeAlarm \<and> repeatDays wakeAlarm = [] \<and> enabled wakeAlarm
 \<and> writes wakeDb
 \<and> getAlarmById (fst (handleDismiss wakeDb phone ''1'')) ''1''
     = Some \<lparr> alarm_id = ''1'', time = 25200000, label = ''Wake'', enabled = False,
              repeatDays = [], notificationId = Some ''native-1'' \<rparr>
 \<and> snd (handleDismiss wakeDb phone ''1'') = phone"
proof -
  have h: "repeatDays wakeAlarm = []" "enabled wakeAlarm" "writes wakeDb"
    by (simp_all add: wakeAlarm_def wakeDb_def)
  from handleDismiss_one_time[OF getAlarmById_wakeDb h, of phone] h getAlarmById_wakeDb
  show ?thesis by (simp add: wakeAlarm_def)
qed


lemma emitted_active: "emitted True broadcasts = broadcasts"
  by (induction broadcasts) (simp_all add: emitted_def onReceive_def)

lemma emitted_inactive: "emitted False broadcasts = []"
  by (induction broadcasts) (simp_all add: emitted_def onReceive_def)

lemma listener_Cons:
  "listener (event # events)
     = (case handleAlarmEvent event of None \<Rightarrow> listener events | Some call \<Rightarrow> call # listener events)"
  by (simp add: listener_def List.map_filter_simps split: option.splits)

lemma two_dismissals:
  "fst (pressDismiss (AlarmReceiver_onReceive ui alarmId))
     @ fst (pressDismiss (tapNotification (snd (pressDismiss (AlarmReceiver_onReceive ui alarmId)))))
   = [activity_handleDismiss alarmId, activity_handleDismiss alarmId]"
  by (simp add: pressDismiss_def tapNotification_def AlarmReceiver_onReceive_def)

text \<open>
  C7. Claim: one physical firing or dismissal produces one transition, also when two
  paths observe it. The program keeps no record of the events it has handled. A
  notification received in the foreground and then tapped pushes two ringing screens.
  One firing of a native alarm, dismissed on the alarm screen started directly and again
  on the alarm screen the notification opens, broadcasts two dismissal events, and the
  listener starts \<open>handleDismiss\<close> for each. A dismissal broadcast while the JavaScript
  runtime is not active starts no handler.
\<close>

theorem dismissal_handled_twice:
  "length (foldl onCallback []
      [NotificationReceived (Some ''1'') (Some ''Wake''),
       NotificationResponseReceived (Some ''1'') (Some ''Wake'')]) = 2
 \<and> listener (emitted True
       (fst (pressDismiss (AlarmReceiver_onReceive \<lparr> ui_screen = None, ui_notification = None \<rparr> ''1''))
        @ fst (pressDismiss (tapNotification (snd (pressDismiss
            (AlarmReceiver_onReceive \<lparr> ui_screen = None, ui_notification = None \<rparr> ''1'')))))))
     = [HandleDismiss ''1'', HandleDismiss ''1'']
 \<and> listener (emitted False [activity_handleDismiss ''1'']) = []"
  unfolding two_dismissals emitted_active emitted_inactive
  by (simp add: listener_def List.map_filter_simps handleAlarmEvent_def activity_handleDismiss_def)

text \<open>
  C7, as the code has it: nothing collapses two observations of one event. Every
  notification callback pushes a ringing screen of its own. After one firing the alarm
  screen can be dismissed twice, once as started directly and once as opened from the
  notification, and with the runtime active the listener starts a handler for each of
  the two broadcasts. With the runtime active every broadcast of a dismissal or a snooze
  starts a handler; with the runtime not active no broadcast starts one.
\<close>

theorem no_deduplication:
  "((\<forall>c\<in>set callbacks. \<forall>url ident lbl. c \<noteq> DeepLink url ident lbl) \<longrightarrow>
      length (foldl onCallback stack callbacks) = length stack + length callbacks)
 \<and> listener (emitted True
       (fst (pressDismiss (AlarmReceiver_onReceive ui alarmId))
        @ fst (pressDismiss (tapNotification (snd (pressDismiss (AlarmReceiver_onReceive ui alarmId)))))))
     = [HandleDismiss alarmId, HandleDismiss alarmId]
 \<and> ((\<forall>e\<in>set broadcasts. eventType e = ''ALARM_DISMISSED'' \<or> eventType e = ''ALARM_SNOOZED'') \<longrightarrow>
      length (listener (emitted True broadcasts)) = length broadcasts)
 \<and> listener (emitted False broadcasts) = []"
proof (intro conjI impI)
  assume "\<forall>c\<in>set callbacks. \<forall>url ident lbl. c \<noteq> DeepLink url ident lbl"
  then show "length (foldl onCallback stack callbacks) = length stack + length callbacks"
  proof (induction callbacks arbitrary: stack)
    case Nil
    then show ?case by simp
  next
    case (Cons c cs)
    then have "length (onCallback stack c) = Suc (length stack)" by (cases c) auto
    with Cons show ?case by simp
  qed
next
  show "listener (emitted True
       (fst (pressDismiss (AlarmReceiver_onReceive ui alarmId))
        @ fst (pressDismiss (tapNotification (snd (pressDismiss (AlarmReceiver_onReceive ui alarmId)))))))
     = [HandleDismiss alarmId, HandleDismiss alarmId]"
    unfolding two_dismissals emitted_active
    by (simp add: listener_def List.map_filter_simps handleAlarmEvent_def activity_handleDismiss_def)
next
  assume "\<forall>e\<in>set broadcasts. eventType e = ''ALARM_DISMISSED'' \<or> eventType e = ''ALARM_SNOOZED''"
  then have "length (listener broadcasts) = length broadcasts"
  proof (induction broadcasts)
    case Nil
    then show ?case by (simp add: listener_def List.map_filter_simps)
  next
    case (Cons e es)
    then have "handleAlarmEvent e \<noteq> None" by (auto simp: handleAlarmEvent_def)
    with Cons show ?case by (auto simp: listener_Cons)
  qed
  then show "length (listener (emitted True broadcasts)) = length broadcasts"
    by (simp add: emitted_active)
next
  show "listener (emitted False broadcasts) = []"
    by (simp add: emitted_inactive listener_def List.map_filter_simps)
qed

text \<open>
  A notification received and then tapped: two ringing screens. The example alarm,
  dismissed on both alarm screens of one firing: two handler calls. Two equal snooze
  broadcasts: two handler calls; with the runtime not active: none.
\<close>

theorem no_deduplication_witness:
  "length (foldl onCallback []
      [NotificationReceived (Some ''1'') (Some ''Wake''),
       NotificationResponseReceived (Some ''1'') (Some ''Wake'')]) = 2
 \<and> listener (emitted True
       (fst (pressDismiss (AlarmReceiver_onReceive \<lparr> ui_screen = None, ui_notification = None \<rparr> ''1''))
        @ fst (pressDismiss (tapNotification (snd (pressDismiss
            (AlarmReceiver_onReceive \<lparr> ui_screen = None, ui_notification = None \<rparr> ''1'')))))))
     = [HandleDismiss ''1'', HandleDismiss ''1'']
 \<and> length (listener (emitted True [activity_handleSnooze ''1'', activity_handleSnooze ''1''])) = 2
 \<and> listener (emitted False [activity_handleSnooze ''1'', activity_handleSnooze ''1'']) = []"
proof -
  from no_deduplication[where stack = "[]" and callbacks =
      "[NotificationReceived (Some ''1'') (Some ''Wake''),
        NotificationResponseReceived (Some ''1'') (Some ''Wake'')]"]
  have c: "length (foldl onCallback []
      [NotificationReceived (Some ''1'') (Some ''Wake''),
       NotificationResponseReceived (Some ''1'') (Some ''Wake'')]) = 2"
    by simp
  from no_deduplication[where ui = "\<lparr> ui_screen = None, ui_notification = None \<rparr>"
      and alarmId = "''1''"]
  have d: "listener (emitted True
       (fst (pressDismiss (AlarmReceiver_onReceive \<lparr> ui_screen = None, ui_notification = None \<rparr> ''1''))
        @ fst (pressDismiss (tapNotification (snd (pressDismiss
            (AlarmReceiver_onReceive \<lparr> ui_screen = None, ui_notification = None \<rparr> ''1'')))))))
     = [HandleDismiss ''1'', HandleDismiss ''1'']"
    by blast
  from no_deduplication[where broadcasts = "[activity_handleSnooze ''1'', activity_handleSnooze ''1'']"]
  have e: "length (listener (emitted True [activity_handleSnooze ''1'', activity_handleSnooze ''1''])) = 2"
    "listener (emitted False [activity_handleSnooze ''1'', activity_handleSnooze ''1'']) = []"
    by (simp_all add: activity_handleSnooze_def)
  from c d e show ?thesis by simp
qed

section \<open>Snoozing\<close>

subsection \<open>Request codes\<close>

lemma foldl_hash:
  fixes h0 :: "32 word"
  defines "f \<equiv> (\<lambda>(h :: 32 word) (c :: char). 31 * h + of_char c)"
  shows "foldl f h0 s = h0 * 31 ^ length s + foldl f 0 s"
proof (induction s rule: rev_induct)
  case Nil
  then show ?case by simp
next
  case (snoc c s)
  have "foldl f h0 (s @ [c]) = 31 * foldl f h0 s + of_char c" by (simp add: f_def)
  also have "\<dots> = 31 * (h0 * 31 ^ length s + foldl f 0 s) + of_char c"
    by (simp only: snoc.IH)
  also have "\<dots> = h0 * 31 ^ length (s @ [c]) + (31 * foldl f 0 s + of_char c)"
    by (simp add: algebra_simps)
  also have "31 * foldl f 0 s + of_char c = foldl f 0 (s @ [c])" by (simp add: f_def)
  finally show ?case .
qed

lemma hashCode_append: "hashCode (xs @ ys) = hashCode xs * 31 ^ length ys + hashCode ys"
  unfolding hashCode_def foldl_append by (rule foldl_hash)

lemma inverse_31: "(31 :: 32 word) * 3186588639 = 1"
  by simp

lemma times_31_cancel: "(x :: 32 word) * 31 = 0 \<Longrightarrow> x = 0"
proof -
  assume z: "x * 31 = 0"
  have "x = x * (31 * 3186588639)" by (simp only: inverse_31 mult_1_right)
  also have "\<dots> = (x * 31) * 3186588639" by (simp only: mult.assoc)
  also have "\<dots> = 0" by (simp only: z mult_zero_left)
  finally show ?thesis .
qed

lemma times_31_power_cancel: "(x :: 32 word) * 31 ^ n = 0 \<Longrightarrow> x = 0"
proof (induction n)
  case 0
  then show ?case by simp
next
  case (Suc n)
  then have "(x * 31 ^ n) * 31 = 0" by (simp add: mult_ac)
  then have "x * 31 ^ n = 0" by (rule times_31_cancel)
  then show ?case by (rule Suc.IH)
qed

lemma hashCode_snooze_prefix: "hashCode ''snooze-'' = 2238852871"
  by (simp add: hashCode_def)

lemma hashCode_snooze_differs: "hashCode (''snooze-'' @ alarmId) \<noteq> hashCode alarmId"
proof
  assume "hashCode (''snooze-'' @ alarmId) = hashCode alarmId"
  then have "hashCode ''snooze-'' * 31 ^ length alarmId + hashCode alarmId = hashCode alarmId"
    by (simp only: hashCode_append)
  then have "hashCode ''snooze-'' * 31 ^ length alarmId = 0" by simp
  then have "hashCode ''snooze-'' = 0" by (rule times_31_power_cancel)
  then show False by (simp add: hashCode_snooze_prefix)
qed

subsection \<open>The snooze alarm\<close>

lemma getAlarmById_id: "getAlarmById db i = Some a \<Longrightarrow> alarm_id a = i"
proof -
  assume g: "getAlarmById db i = Some a"
  then obtain r where r: "find (\<lambda>r. row_id r = i) (table db) = Some r" "rowToAlarm r = Inr a"
    by (auto simp: getAlarmById_def getDatabase_def selectById_def
        split: option.splits sum.splits if_splits)
  from r(1) have "row_id r = i" by (auto simp: find_Some_iff)
  moreover from r(2) have "alarm_id a = row_id r"
    by (auto simp: rowToAlarm_def split: option.splits)
  ultimately show ?thesis by simp
qed

lemma orDefault_twice: "orDefault (orDefault s ''Alarm'') ''Snooze Alarm'' = orDefault s ''Alarm''"
  by (simp add: orDefault_def)

text \<open>
  Snoozing an alarm of the store through the event service, where the native alarm
  module is available and accepts the alarm (the exact-alarm permission is there and the
  call does not reject), arms a one-shot native alarm under the id
  \<open>"snooze-" + alarmId\<close> for exactly \<open>now\<close> + 5 minutes. Nothing else changes: the database
  (and with it the record's \<open>repeatDays\<close>, \<open>enabled\<close> and \<open>notificationId\<close>) is the same, the
  pending alarm of the record's own id is the same (the snooze alarm has another request
  code), and so are the scheduled notifications.
\<close>

lemma handleSnooze_arms_snooze_alarm:
  assumes "getAlarmById db alarmId = Some alarm" "isAvailable p"
    "ScheduleAlarm \<notin> set (rejecting p)" "exactAllowed p"
  shows "handleSnooze db p alarmId
           = (db, p\<lparr>alarmManager :=
                     (hashCode (''snooze-'' @ alarmId),
                      \<lparr> na_id = ''snooze-'' @ alarmId, na_label = orDefault (label alarm) ''Alarm'',
                        na_triggerTime = clock p + 300000, na_isRepeating = False \<rparr>)
                     # filter (\<lambda>(code, pending). code \<noteq> hashCode (''snooze-'' @ alarmId))
                         (alarmManager p)\<rparr>)
       \<and> filter (\<lambda>(code, pending). code = hashCode alarmId)
            (alarmManager (snd (handleSnooze db p alarmId)))
           = filter (\<lambda>(code, pending). code = hashCode alarmId) (alarmManager p)
       \<and> getAlarmById (fst (handleSnooze db p alarmId)) alarmId = Some alarm"
proof -
  have i: "alarm_id alarm = alarmId" by (rule getAlarmById_id[OF assms(1)])
  have h: "handleSnooze db p alarmId
           = (db, p\<lparr>alarmManager :=
                     (hashCode (''snooze-'' @ alarmId),
                      \<lparr> na_id = ''snooze-'' @ alarmId, na_label = orDefault (label alarm) ''Alarm'',
                        na_triggerTime = clock p + 300000, na_isRepeating = False \<rparr>)
                     # filter (\<lambda>(code, pending). code \<noteq> hashCode (''snooze-'' @ alarmId))
                         (alarmManager p)\<rparr>)"
    using assms i
    by (simp add: handleSnooze_def scheduleSnoozeNotification_def scheduleAlarm_def
        java_scheduleAlarm_def setExactAndAllowWhileIdle_def Let_def orDefault_twice)
  have d: "hashCode (''snooze-'' @ alarmId) \<noteq> hashCode alarmId"
    by (rule hashCode_snooze_differs)
  have f: "filter (\<lambda>(code, pending). code = hashCode alarmId)
             (filter (\<lambda>(code, pending). code \<noteq> hashCode (''snooze-'' @ alarmId)) (alarmManager p))
           = filter (\<lambda>(code, pending). code = hashCode alarmId) (alarmManager p)"
    using d by (auto intro: filter_cong)
  show ?thesis
    unfolding h using d f assms(1) by simp
qed

lemma handleSnooze_arms_snooze_alarm_example:
  "getAlarmById wakeDb ''1'' = Some wakeAlarm \<and> isAvailable phone
 \<and> ScheduleAlarm \<notin> set (rejecting phone) \<and> exactAllowed phone
 \<and> handleSnooze wakeDb phone ''1''
     = (wakeDb, phone\<lparr>alarmManager :=
          [(684962314, \<lparr> na_id = ''snooze-1'', na_label = ''Wake'',
                          na_triggerTime = 21900000, na_isRepeating = False \<rparr>)]\<rparr>)
 \<and> getAlarmById (fst (handleSnooze wakeDb phone ''1'')) ''1'' = Some wakeAlarm"
proof -
  have a: "isAvailable phone" "ScheduleAlarm \<notin> set (rejecting phone)" "exactAllowed phone"
    by (simp_all add: isAvailable_def phone_def)
  have c: "hashCode ''snooze-1'' = 684962314" by (simp add: hashCode_def)
  have v: "clock phone + 300000 = 21900000" "alarmManager phone = []"
    "orDefault (label wakeAlarm) ''Alarm'' = ''Wake''"
    by (simp_all add: phone_def wakeAlarm_def orDefault_def)
  from handleSnooze_arms_snooze_alarm[OF getAlarmById_wakeDb a] a getAlarmById_wakeDb
  show ?thesis by (simp add: c v)
qed

text \<open>
  Without the native module the snooze is a notification request with a date trigger;
  it has an identifier of the notification library and no key made from the alarm id.
\<close>

lemma handleSnooze_fallback:
  assumes "getAlarmById db alarmId = Some alarm" "\<not> isAvailable p"
    "Notifications \<notin> set (rejecting p)"
  shows "handleSnooze db p alarmId
           = (db, p\<lparr>scheduledNotifications :=
                     scheduledNotifications p
                     @ [\<lparr> nr_identifier = identifiers p (issued p),
                          nr_body = orDefault (label alarm) ''Alarm'',
                          nr_alarmId = alarmId, nr_label = orDefault (label alarm) ''Alarm'',
                          nr_isSnooze = True, nr_trigger = DateTrigger (clock p + 300000) \<rparr>],
                   issued := issued p + 1\<rparr>)"
  using assms getAlarmById_id[OF assms(1)]
  by (simp add: handleSnooze_def scheduleSnoozeNotification_def scheduleNotificationAsync_def
      Let_def orDefault_def)

text \<open>An event whose id no record has arms nothing.\<close>

lemma handleSnooze_unknown: "getAlarmById db alarmId = None \<Longrightarrow> handleSnooze db p alarmId = (db, p)"
  by (simp add: handleSnooze_def)

text \<open>
  C6. Claim: snoozing any alarm arms a new one-shot timer keyed \<open>"snooze-" + alarmId\<close> for
  \<open>now\<close> + 5 minutes. Snoozing the example alarm at 06:00 arms the alarm \<open>snooze-1\<close> for
  06:05. When that alarm rings, \<open>AlarmReceiver\<close> opens the alarm screen with the id
  \<open>snooze-1\<close>, the Snooze button broadcasts \<open>ALARM_SNOOZED\<close> for \<open>snooze-1\<close> and the listener
  starts \<open>handleSnooze\<close> with it. \<open>handleSnooze\<close> looks the id up in the store, where no
  record has it, and arms nothing: the platform at 06:05 is unchanged. The ringing
  screen's \<open>handleSnooze\<close> does not look the id up: on the same platform it arms
  \<open>snooze-snooze-1\<close> for 06:10.
\<close>

theorem snooze_of_snooze_arms_nothing:
  "map (\<lambda>(code, pending). (na_id pending, na_triggerTime pending))
       (alarmManager (snd (handleSnooze wakeDb phone ''1'')))
     = [(''snooze-1'', 21900000)]
 \<and> fst (pressSnooze (AlarmReceiver_onReceive \<lparr> ui_screen = None, ui_notification = None \<rparr> ''snooze-1''))
     = [activity_handleSnooze ''snooze-1'']
 \<and> listener (emitted True [activity_handleSnooze ''snooze-1'']) = [HandleSnooze ''snooze-1'']
 \<and> getAlarmById wakeDb ''snooze-1'' = None
 \<and> handleSnooze wakeDb (phone\<lparr>clock := 21900000\<rparr>) ''snooze-1''
     = (wakeDb, phone\<lparr>clock := 21900000\<rparr>)
 \<and> map (\<lambda>(code, pending). (na_id pending, na_triggerTime pending))
       (alarmManager (ring_handleSnooze (phone\<lparr>clock := 21900000\<rparr>) ''Wake'' ''snooze-1''))
     = [(''snooze-snooze-1'', 22200000)]"
proof -
  have a: "isAvailable phone" "ScheduleAlarm \<notin> set (rejecting phone)" "exactAllowed phone"
    by (simp_all add: isAvailable_def phone_def)
  have s: "map (\<lambda>(code, pending). (na_id pending, na_triggerTime pending))
       (alarmManager (snd (handleSnooze wakeDb phone ''1'')))
     = [(''snooze-1'', 21900000)]"
    using handleSnooze_arms_snooze_alarm[OF getAlarmById_wakeDb a]
    by (simp add: phone_def)
  have u: "fst (pressSnooze (AlarmReceiver_onReceive \<lparr> ui_screen = None, ui_notification = None \<rparr> ''snooze-1''))
     = [activity_handleSnooze ''snooze-1'']"
    by (simp add: pressSnooze_def AlarmReceiver_onReceive_def)
  have l: "listener (emitted True [activity_handleSnooze ''snooze-1'']) = [HandleSnooze ''snooze-1'']"
    by (simp add: emitted_active listener_def List.map_filter_simps handleAlarmEvent_def
        activity_handleSnooze_def)
  have g: "getAlarmById wakeDb ''snooze-1'' = None"
    by (rule getAlarmById_absent) (simp add: wakeDb_def wakeRow_def)
  have r: "map (\<lambda>(code, pending). (na_id pending, na_triggerTime pending))
       (alarmManager (ring_handleSnooze (phone\<lparr>clock := 21900000\<rparr>) ''Wake'' ''snooze-1''))
     = [(''snooze-snooze-1'', 22200000)]"
    by (simp add: ring_handleSnooze_def scheduleSnoozeNotification_def scheduleAlarm_def
        java_scheduleAlarm_def setExactAndAllowWhileIdle_def isAvailable_def phone_def Let_def
        orDefault_def)
  from s u l g handleSnooze_unknown[OF g] r show ?thesis by simp
qed

section \<open>Arming\<close>

subsection \<open>What the service calls leave unchanged\<close>

lemma cancelNotification_frame:
  "android (cancelNotification p n) = android p"
  "nativeModule (cancelNotification p n) = nativeModule p"
  "rejecting (cancelNotification p n) = rejecting p"
  "clock (cancelNotification p n) = clock p"
  "tzOffset (cancelNotification p n) = tzOffset p"
  "identifiers (cancelNotification p n) = identifiers p"
  "issued (cancelNotification p n) = issued p"
  "exactAllowed (cancelNotification p n) = exactAllowed p"
  "notificationsGranted (cancelNotification p n) = notificationsGranted p"
  by (auto simp: cancelNotification_def cancelAlarm_def java_cancelAlarm_def
      cancelScheduledNotificationAsync_def Let_def split: sum.splits)

lemma cancelNotification_alarmManager:
  "set (alarmManager (cancelNotification p n)) \<subseteq> set (alarmManager p)"
  by (auto simp: cancelNotification_def cancelAlarm_def java_cancelAlarm_def
      cancelScheduledNotificationAsync_def Let_def split: sum.splits)

lemma isAvailable_cancelNotification: "isAvailable (cancelNotification p n) = isAvailable p"
  by (simp add: isAvailable_def cancelNotification_frame)

text \<open>The platform when the alarm is handed to the gateway: after the requests and the cancel.\<close>

definition beforeArming :: "platform \<Rightarrow> Alarm \<Rightarrow> platform" where
  "beforeArming p alarm =
     (let p1 = p\<lparr>notificationsGranted := True\<rparr>
      in case orElse (notificationId alarm) None of
           None \<Rightarrow> p1
         | Some existing \<Rightarrow> cancelNotification p1 existing)"

lemma beforeArming_frame:
  "isAvailable (beforeArming p alarm) = isAvailable p"
  "rejecting (beforeArming p alarm) = rejecting p"
  "clock (beforeArming p alarm) = clock p"
  "tzOffset (beforeArming p alarm) = tzOffset p"
  "exactAllowed (beforeArming p alarm) = exactAllowed p"
  "notificationsGranted (beforeArming p alarm)"
  unfolding beforeArming_def Let_def
  by (cases "orElse (notificationId alarm) None";
      simp add: isAvailable_def cancelNotification_frame)+

lemma beforeArming_alarmManager:
  "set (alarmManager (beforeArming p alarm)) \<subseteq> set (alarmManager p)"
proof (cases "orElse (notificationId alarm) None")
  case None
  then show ?thesis by (simp add: beforeArming_def)
next
  case (Some existing)
  with cancelNotification_alarmManager[of "p\<lparr>notificationsGranted := True\<rparr>" existing]
  show ?thesis by (simp add: beforeArming_def)
qed

text \<open>The alarm data \<open>scheduleNativeAlarm\<close> hands to the native module.\<close>

definition nativeAlarmOf :: "platform \<Rightarrow> Alarm \<Rightarrow> nativeAlarm" where
  "nativeAlarmOf p alarm =
     \<lparr> na_id = alarm_id alarm, na_label = orDefault (label alarm) ''Alarm'',
       na_triggerTime =
         (if length (repeatDays alarm) > 0
          then getNextOccurrence (tzOffset p) (clock p) (time alarm) (repeatDays alarm)
          else oneTimeTrigger p alarm),
       na_isRepeating = (length (repeatDays alarm) > 0) \<rparr>"

lemma oneTimeTrigger_clock:
  "oneTimeTrigger p alarm = (if time alarm < clock p then nextDate (time alarm) else time alarm)"
  by (simp add: oneTimeTrigger_def Let_def)

text \<open>
  The one-time branch of \<open>scheduleNativeAlarm\<close> computes the instant that
  \<open>getNextOccurrence\<close> computes for an empty \<open>repeatDays\<close>.
\<close>

lemma oneTimeTrigger_getNextOccurrence:
  "oneTimeTrigger p alarm = getNextOccurrence (tzOffset p) (clock p) (time alarm) []"
  by (simp add: oneTimeTrigger_def getNextOccurrence_def)

lemma granted_update: "notificationsGranted p \<Longrightarrow> p\<lparr>notificationsGranted := True\<rparr> = p"
  by (cases p) simp

lemma requestPermissions_granted:
  assumes "Notifications \<notin> set (rejecting p)" "notificationsGranted p \<or> userGrantsNotifications p"
  shows "requestPermissions p = Inr (True, p\<lparr>notificationsGranted := True\<rparr>)"
proof (cases "notificationsGranted p")
  case True
  with assms(1) show ?thesis by (simp add: requestPermissions_def granted_update)
next
  case False
  with assms show ?thesis by (simp add: requestPermissions_def)
qed

lemma canScheduleExactAlarms_granted:
  "canScheduleExactAlarms (p\<lparr>notificationsGranted := True\<rparr>) = canScheduleExactAlarms p"
  by (simp add: canScheduleExactAlarms_def isAvailable_def java_canScheduleExactAlarms_def)

lemma requestExactAlarmPermission_result:
  assumes "isAvailable p"
  shows "requestExactAlarmPermission p =
     (if \<not> canScheduleExactAlarms p \<and> RequestExactAlarmPermission \<in> set (rejecting p)
      then Inl PlatformFailure
      else Inr (canScheduleExactAlarms p, p))"
  using assms
  by (simp add: requestExactAlarmPermission_def AlarmModule_requestExactAlarmPermission_def
      java_requestExactAlarmPermission_def)

lemma scheduleNativeAlarm_available:
  assumes "isAvailable p"
  shows "scheduleNativeAlarm p alarm =
     (if ScheduleAlarm \<in> set (rejecting p) \<or> \<not> exactAllowed p then Inl PlatformFailure
      else Inr (p\<lparr>alarmManager :=
                  (hashCode (alarm_id alarm), nativeAlarmOf p alarm)
                  # filter (\<lambda>(code, pending). code \<noteq> hashCode (alarm_id alarm))
                      (alarmManager p)\<rparr>))"
  using assms
  by (simp add: scheduleNativeAlarm_def scheduleAlarm_def java_scheduleAlarm_def
      setExactAndAllowWhileIdle_def Let_def nativeAlarmOf_def)

lemma nativeAlarmOf_beforeArming:
  "nativeAlarmOf (beforeArming p alarm) a = nativeAlarmOf p a"
  by (simp add: nativeAlarmOf_def oneTimeTrigger_clock beforeArming_frame)

lemma scheduleAlarmNotification_native:
  assumes "isAvailable p" "Notifications \<notin> set (rejecting p)"
    "notificationsGranted p \<or> userGrantsNotifications p"
  shows "scheduleAlarmNotification p alarm =
     (if (\<not> canScheduleExactAlarms p \<and> RequestExactAlarmPermission \<in> set (rejecting p))
      then (None, p\<lparr>notificationsGranted := True\<rparr>)
      else if ScheduleAlarm \<in> set (rejecting p) \<or> \<not> exactAllowed p
      then (None, beforeArming p alarm)
      else (Some (''native-'' @ alarm_id alarm),
            (beforeArming p alarm)\<lparr>alarmManager :=
               (hashCode (alarm_id alarm), nativeAlarmOf p alarm)
               # filter (\<lambda>(code, pending). code \<noteq> hashCode (alarm_id alarm))
                   (alarmManager (beforeArming p alarm))\<rparr>))"
proof -
  let ?p1 = "p\<lparr>notificationsGranted := True\<rparr>"
  note rp = requestPermissions_granted[OF assms(2,3)]
  have av1: "isAvailable ?p1" using assms(1) by (simp add: isAvailable_def)
  have rj1: "rejecting ?p1 = rejecting p" by simp
  note re = requestExactAlarmPermission_result[OF av1, unfolded canScheduleExactAlarms_granted rj1]
  show ?thesis
  proof (cases "\<not> canScheduleExactAlarms p \<and> RequestExactAlarmPermission \<in> set (rejecting p)")
    case True
    with re have "requestExactAlarmPermission ?p1 = Inl PlatformFailure" by simp
    with True rp show ?thesis by (simp add: scheduleAlarmNotification_def)
  next
    case False
    have re': "requestExactAlarmPermission ?p1 = Inr (canScheduleExactAlarms p, ?p1)"
      using re False by simp
    define p3 where "p3 = beforeArming p alarm"
    have p3: "(case orElse (notificationId alarm) None of
           None \<Rightarrow> ?p1 | Some existing \<Rightarrow> cancelNotification ?p1 existing) = p3"
      unfolding p3_def beforeArming_def Let_def ..
    have av3: "isAvailable p3" unfolding p3_def using assms(1) by (simp add: beforeArming_frame)
    have rj3: "rejecting p3 = rejecting p" unfolding p3_def by (simp add: beforeArming_frame)
    have na3: "nativeAlarmOf p3 alarm = nativeAlarmOf p alarm"
      unfolding p3_def by (rule nativeAlarmOf_beforeArming)
    have ex3: "exactAllowed p3 = exactAllowed p"
      unfolding p3_def by (rule beforeArming_frame)
    have "scheduleAlarmNotification p alarm =
        (case scheduleNativeAlarm p3 alarm of
           Inl e \<Rightarrow> (None, p3)
         | Inr p4 \<Rightarrow> (Some (''native-'' @ alarm_id alarm), p4))"
      unfolding scheduleAlarmNotification_def rp
      by (simp add: re' Let_def p3 av3 split: sum.splits)
    also have "\<dots> = (if ScheduleAlarm \<in> set (rejecting p) \<or> \<not> exactAllowed p
      then (None, p3)
      else (Some (''native-'' @ alarm_id alarm),
            p3\<lparr>alarmManager :=
               (hashCode (alarm_id alarm), nativeAlarmOf p alarm)
               # filter (\<lambda>(code, pending). code \<noteq> hashCode (alarm_id alarm))
                   (alarmManager p3)\<rparr>))"
      unfolding scheduleNativeAlarm_available[OF av3] rj3 na3 ex3 by simp
    finally show ?thesis using False unfolding p3_def by auto
  qed
qed

lemma scheduleAlarmNotification_Some:
  assumes "fst (scheduleAlarmNotification p alarm) = Some h"
  shows "Notifications \<notin> set (rejecting p)" "notificationsGranted p \<or> userGrantsNotifications p"
proof -
  show "Notifications \<notin> set (rejecting p)"
  proof
    assume "Notifications \<in> set (rejecting p)"
    then have "scheduleAlarmNotification p alarm = (None, p)"
      by (simp add: scheduleAlarmNotification_def requestPermissions_def)
    with assms show False by simp
  qed
  then have rp: "requestPermissions p =
      (if notificationsGranted p then Inr (True, p)
       else Inr (userGrantsNotifications p, p\<lparr>notificationsGranted := userGrantsNotifications p\<rparr>))"
    by (simp add: requestPermissions_def)
  show "notificationsGranted p \<or> userGrantsNotifications p"
  proof (rule ccontr)
    assume "\<not> (notificationsGranted p \<or> userGrantsNotifications p)"
    then have "fst (scheduleAlarmNotification p alarm) = None"
      unfolding scheduleAlarmNotification_def rp by simp
    with assms show False by simp
  qed
qed

text \<open>The notification request of the fallback path.\<close>

definition requestOf :: "platform \<Rightarrow> Alarm \<Rightarrow> notificationRequest" where
  "requestOf p alarm =
     \<lparr> nr_identifier = identifiers p (issued p),
       nr_body = orDefault (label alarm) ''Time to wake up!'',
       nr_alarmId = alarm_id alarm, nr_label = label alarm, nr_isSnooze = False,
       nr_trigger =
         (if length (repeatDays alarm) > 0
          then CalendarTrigger (getHours (tzOffset p) (time alarm)) (getMinutes (tzOffset p) (time alarm))
          else DateTrigger (oneTimeTrigger p alarm)) \<rparr>"

lemma beforeArming_supply:
  "identifiers (beforeArming p alarm) = identifiers p"
  "issued (beforeArming p alarm) = issued p"
  unfolding beforeArming_def Let_def
  by (cases "orElse (notificationId alarm) None"; simp add: cancelNotification_frame)+

lemma scheduleAlarmNotification_fallback:
  assumes "\<not> isAvailable p" "Notifications \<notin> set (rejecting p)"
    "notificationsGranted p \<or> userGrantsNotifications p"
  shows "scheduleAlarmNotification p alarm =
     (Some (identifiers p (issued p)),
      (beforeArming p alarm)\<lparr>scheduledNotifications :=
          scheduledNotifications (beforeArming p alarm) @ [requestOf p alarm],
        issued := issued p + 1\<rparr>)"
proof -
  let ?p1 = "p\<lparr>notificationsGranted := True\<rparr>"
  note rp = requestPermissions_granted[OF assms(2,3)]
  have av1: "\<not> isAvailable ?p1" using assms(1) by (simp add: isAvailable_def)
  have re: "requestExactAlarmPermission ?p1 = Inr (True, ?p1)"
    using av1 by (simp add: requestExactAlarmPermission_def)
  define p3 where "p3 = beforeArming p alarm"
  have p3: "(case orElse (notificationId alarm) None of
           None \<Rightarrow> ?p1 | Some existing \<Rightarrow> cancelNotification ?p1 existing) = p3"
    unfolding p3_def beforeArming_def Let_def using av1 by simp
  have av3: "\<not> isAvailable p3" unfolding p3_def using assms(1) by (simp add: beforeArming_frame)
  have rj3: "Notifications \<notin> set (rejecting p3)"
    unfolding p3_def using assms(2) by (simp add: beforeArming_frame)
  have f3: "tzOffset p3 = tzOffset p" "clock p3 = clock p" "identifiers p3 = identifiers p"
    "issued p3 = issued p"
    unfolding p3_def by (simp_all add: beforeArming_frame beforeArming_supply)
  have "scheduleAlarmNotification p alarm =
      (case scheduleNotificationAsync p3
              \<lparr> nr_identifier = [],
                nr_body = orDefault (label alarm) ''Time to wake up!'',
                nr_alarmId = alarm_id alarm, nr_label = label alarm, nr_isSnooze = False,
                nr_trigger =
                  (if length (repeatDays alarm) > 0
                   then CalendarTrigger (getHours (tzOffset p3) (time alarm))
                          (getMinutes (tzOffset p3) (time alarm))
                   else DateTrigger (oneTimeTrigger p3 alarm)) \<rparr> of
         Inl e \<Rightarrow> (None, p3)
       | Inr (ident, p4) \<Rightarrow> (Some ident, p4))"
    unfolding scheduleAlarmNotification_def rp
    by (simp add: re Let_def p3 av3 split: sum.splits)
  also have "\<dots> = (Some (identifiers p (issued p)),
      p3\<lparr>scheduledNotifications := scheduledNotifications p3 @ [requestOf p alarm],
        issued := issued p + 1\<rparr>)"
    using rj3 by (simp add: scheduleNotificationAsync_def Let_def f3 requestOf_def
        oneTimeTrigger_clock)
  finally show ?thesis unfolding p3_def .
qed

text \<open>
  The live handles of an alarm id: the pending native alarms under the request code of
  the id, and the scheduled notification requests of the id that are no snooze.
\<close>

definition pendingFor :: "platform \<Rightarrow> string \<Rightarrow> (32 word \<times> nativeAlarm) list" where
  "pendingFor p i = filter (\<lambda>(code, pending). code = hashCode i) (alarmManager p)"

definition liveRequests :: "platform \<Rightarrow> string \<Rightarrow> notificationRequest list" where
  "liveRequests p i = filter (\<lambda>r. nr_alarmId r = i \<and> \<not> nr_isSnooze r) (scheduledNotifications p)"

text \<open>
  The record holds the handle of every live request of its id: an identifier of the
  notification library (not empty, not of the form of a native handle).
\<close>

definition recorded :: "platform \<Rightarrow> Alarm \<Rightarrow> bool" where
  "recorded p alarm \<longleftrightarrow>
     list_all (\<lambda>r. notificationId alarm = Some (nr_identifier r) \<and> nr_identifier r \<noteq> []
                    \<and> \<not> startsWith (nr_identifier r) ''native-'')
       (liveRequests p (alarm_id alarm))"

lemma pendingFor_scheduled:
  "pendingFor (q\<lparr>alarmManager := (hashCode i, x) # filter (\<lambda>(code, pending). code \<noteq> hashCode i) am\<rparr>) i
     = [(hashCode i, x)]"
proof -
  have "filter (\<lambda>(code, pending). code = hashCode i) (filter (\<lambda>(code, pending). code \<noteq> hashCode i) am) = []"
    by (induction am) auto
  then show ?thesis by (simp add: pendingFor_def)
qed

lemma native_call:
  assumes "isAvailable p" "scheduleAlarmNotification p alarm = (Some h, p')"
  shows "h = ''native-'' @ alarm_id alarm"
    and "pendingFor p' (alarm_id alarm) = [(hashCode (alarm_id alarm), nativeAlarmOf p alarm)]"
    and "isAvailable p'"
proof -
  from assms(2) have s: "fst (scheduleAlarmNotification p alarm) = Some h" by simp
  note pre = scheduleAlarmNotification_Some[OF s]
  note n = scheduleAlarmNotification_native[OF assms(1) pre, of alarm]
  from assms(2) n have ok: "\<not> (\<not> canScheduleExactAlarms p \<and> RequestExactAlarmPermission \<in> set (rejecting p))"
    "ScheduleAlarm \<notin> set (rejecting p)" "exactAllowed p"
    by (auto split: if_splits)
  from assms(2) n ok have h: "h = ''native-'' @ alarm_id alarm"
    and p': "p' = (beforeArming p alarm)\<lparr>alarmManager :=
               (hashCode (alarm_id alarm), nativeAlarmOf p alarm)
               # filter (\<lambda>(code, pending). code \<noteq> hashCode (alarm_id alarm))
                   (alarmManager (beforeArming p alarm))\<rparr>"
    by auto
  show "h = ''native-'' @ alarm_id alarm" by (rule h)
  show "pendingFor p' (alarm_id alarm) = [(hashCode (alarm_id alarm), nativeAlarmOf p alarm)]"
    unfolding p' by (rule pendingFor_scheduled)
  have "isAvailable (beforeArming p alarm)" using assms(1) by (simp add: beforeArming_frame)
  then show "isAvailable p'" unfolding p' by (simp add: isAvailable_def)
qed

lemma liveRequests_beforeArming:
  assumes "\<not> isAvailable p" "Notifications \<notin> set (rejecting p)" "recorded p alarm"
  shows "liveRequests (beforeArming p alarm) (alarm_id alarm) = []"
proof -
  let ?p1 = "p\<lparr>notificationsGranted := True\<rparr>"
  let ?i = "alarm_id alarm"
  have av1: "\<not> isAvailable ?p1" using assms(1) by (simp add: isAvailable_def)
  have b: "beforeArming p alarm = (case orElse (notificationId alarm) None of
           None \<Rightarrow> ?p1 | Some existing \<Rightarrow> cancelNotification ?p1 existing)"
    unfolding beforeArming_def Let_def using av1 by simp
  have rec: "\<forall>r\<in>set (liveRequests p ?i). notificationId alarm = Some (nr_identifier r)
      \<and> nr_identifier r \<noteq> [] \<and> \<not> startsWith (nr_identifier r) ''native-''"
    using assms(3) by (simp add: recorded_def list_all_iff)
  have l1: "liveRequests ?p1 ?i = liveRequests p ?i" by (simp add: liveRequests_def)
  show ?thesis
  proof (cases "orElse (notificationId alarm) None")
    case None
    have "liveRequests p ?i = []"
    proof (rule ccontr)
      assume "liveRequests p ?i \<noteq> []"
      then obtain r where r: "r \<in> set (liveRequests p ?i)" by (cases "liveRequests p ?i") auto
      with rec have "notificationId alarm = Some (nr_identifier r)" "nr_identifier r \<noteq> []" by auto
      with None show False by (simp add: orElse_def)
    qed
    with None show ?thesis unfolding b by (simp add: l1)
  next
    case (Some n)
    then have n: "notificationId alarm = Some n" "n \<noteq> []"
      by (auto simp: orElse_def split: option.splits if_splits)
    show ?thesis
    proof (cases "startsWith n ''native-''")
      case True
      have "liveRequests p ?i = []"
      proof (rule ccontr)
        assume "liveRequests p ?i \<noteq> []"
        then obtain r where r: "r \<in> set (liveRequests p ?i)" by (cases "liveRequests p ?i") auto
        with rec n have "nr_identifier r = n" "\<not> startsWith (nr_identifier r) ''native-''" by auto
        with True show False by simp
      qed
      moreover have "cancelNotification ?p1 n = ?p1"
        using True av1 by (simp add: cancelNotification_def Let_def)
      ultimately show ?thesis unfolding b Some by (simp add: l1)
    next
      case False
      have c: "cancelNotification ?p1 n = ?p1\<lparr>scheduledNotifications :=
                    filter (\<lambda>r. nr_identifier r \<noteq> n) (scheduledNotifications ?p1)\<rparr>"
        using False assms(2)
        by (simp add: cancelNotification_def cancelScheduledNotificationAsync_def)
      have "filter (\<lambda>r. nr_alarmId r = ?i \<and> \<not> nr_isSnooze r)
              (filter (\<lambda>r. nr_identifier r \<noteq> n) (scheduledNotifications p)) = []"
      proof -
        have "\<forall>r\<in>set (scheduledNotifications p).
                 \<not> (nr_identifier r \<noteq> n \<and> nr_alarmId r = ?i \<and> \<not> nr_isSnooze r)"
        proof
          fix r assume r: "r \<in> set (scheduledNotifications p)"
          show "\<not> (nr_identifier r \<noteq> n \<and> nr_alarmId r = ?i \<and> \<not> nr_isSnooze r)"
          proof
            assume a: "nr_identifier r \<noteq> n \<and> nr_alarmId r = ?i \<and> \<not> nr_isSnooze r"
            with r have "r \<in> set (liveRequests p ?i)" by (simp add: liveRequests_def)
            with rec n have "nr_identifier r = n" by auto
            with a show False by simp
          qed
        qed
        then show ?thesis by (simp add: filter_empty_conv)
      qed
      then show ?thesis by (simp add: b Some c liveRequests_def)
    qed
  qed
qed

lemma fallback_call:
  assumes "\<not> isAvailable p" "recorded p alarm" "scheduleAlarmNotification p alarm = (Some h, p')"
  shows "h = identifiers p (issued p)"
    and "liveRequests p' (alarm_id alarm) = [requestOf p alarm]"
    and "\<not> isAvailable p'"
proof -
  from assms(3) have s: "fst (scheduleAlarmNotification p alarm) = Some h" by simp
  note pre = scheduleAlarmNotification_Some[OF s]
  note f = scheduleAlarmNotification_fallback[OF assms(1) pre, of alarm]
  from assms(3) f have h: "h = identifiers p (issued p)"
    and p': "p' = (beforeArming p alarm)\<lparr>scheduledNotifications :=
          scheduledNotifications (beforeArming p alarm) @ [requestOf p alarm],
        issued := issued p + 1\<rparr>"
    by auto
  show "h = identifiers p (issued p)" by (rule h)
  have "liveRequests p' (alarm_id alarm)
        = liveRequests (beforeArming p alarm) (alarm_id alarm) @ [requestOf p alarm]"
    unfolding p' by (simp add: liveRequests_def requestOf_def)
  then show "liveRequests p' (alarm_id alarm) = [requestOf p alarm]"
    by (simp add: liveRequests_beforeArming[OF assms(1) pre(1) assms(2)])
  have "\<not> isAvailable (beforeArming p alarm)" using assms(1) by (simp add: beforeArming_frame)
  then show "\<not> isAvailable p'" unfolding p' by (simp add: isAvailable_def)
qed

lemma filter_other_code:
  "filter (\<lambda>(code, pending). code = h) (filter (\<lambda>(code, pending). code \<noteq> h) am) = []"
  by (induction am) auto

lemma pendingFor_cancelled:
  assumes "isAvailable p" "notificationId alarm = Some (''native-'' @ alarm_id alarm)"
    "CancelAlarm \<notin> set (rejecting p)"
  shows "pendingFor (beforeArming p alarm) (alarm_id alarm) = []"
  using assms
  by (simp add: beforeArming_def orElse_def cancelNotification_def startsWith_def
      cancelAlarm_def java_cancelAlarm_def isAvailable_def pendingFor_def filter_other_code
      del: filter_filter)

text \<open>
  The example phone with the exact-alarm permission missing, the example phone whose
  gateway refuses the alarm while the example alarm is pending, and the example device
  without the native module. The example alarm before it was ever armed.
\<close>

definition phoneWithoutExact :: platform where
  "phoneWithoutExact = phone\<lparr>exactAllowed := False\<rparr>"

definition refusingPhone :: platform where
  "refusingPhone = phone\<lparr>rejecting := [ScheduleAlarm],
       alarmManager := [(49, \<lparr> na_id = ''1'', na_label = ''Wake'', na_triggerTime = 25200000,
                                na_isRepeating = False \<rparr>)]\<rparr>"

definition iphone :: platform where
  "iphone = phone\<lparr>android := False\<rparr>"

definition newAlarm :: Alarm where
  "newAlarm = wakeAlarm\<lparr>notificationId := None\<rparr>"

lemma hashCode_1: "hashCode ''1'' = 49"
  by (simp add: hashCode_def)

lemma nativeAlarmOf_wake:
  "nativeAlarmOf phoneWithoutExact wakeAlarm
     = \<lparr> na_id = ''1'', na_label = ''Wake'', na_triggerTime = 25200000, na_isRepeating = False \<rparr>"
  by (simp add: nativeAlarmOf_def oneTimeTrigger_clock phoneWithoutExact_def phone_def
      wakeAlarm_def orDefault_def)

lemma digits_0: "digits 0 = ''0''"
  by code_simp

lemma digits_1: "digits (Suc 0) = ''1''"
  by code_simp

lemma phone_facts:
  "isAvailable phone" "Notifications \<notin> set (rejecting phone)"
  "notificationsGranted phone \<or> userGrantsNotifications phone"
  by (simp_all add: phone_def isAvailable_def)

lemma iphone_facts:
  "\<not> isAvailable iphone" "Notifications \<notin> set (rejecting iphone)"
  "notificationsGranted iphone \<or> userGrantsNotifications iphone"
  by (simp_all add: iphone_def phone_def isAvailable_def)

lemma schedule_iphone:
  "scheduleAlarmNotification iphone newAlarm
     = (Some ''expo-0'',
        iphone\<lparr>scheduledNotifications := [requestOf iphone newAlarm], issued := 1\<rparr>)"
proof -
  have b: "beforeArming iphone newAlarm = iphone"
    by (simp add: beforeArming_def newAlarm_def wakeAlarm_def orElse_def iphone_def phone_def)
  show ?thesis
    unfolding scheduleAlarmNotification_fallback[OF iphone_facts] b
    by (simp add: iphone_def phone_def digits_0)
qed

lemma schedule_iphone_again:
  fixes handle :: "string option"
  defines "q \<equiv> iphone\<lparr>scheduledNotifications := [requestOf iphone newAlarm], issued := 1\<rparr>"
  assumes "handle = None \<or> handle = Some ''expo-0''"
  shows "fst (scheduleAlarmNotification q (newAlarm\<lparr>notificationId := handle\<rparr>)) = Some ''expo-1''"
    and "map nr_identifier
           (liveRequests (snd (scheduleAlarmNotification q (newAlarm\<lparr>notificationId := handle\<rparr>))) ''1'')
         = (if handle = None then [''expo-0'', ''expo-1''] else [''expo-1''])"
proof -
  let ?a = "newAlarm\<lparr>notificationId := handle\<rparr>"
  have f: "\<not> isAvailable q" "Notifications \<notin> set (rejecting q)"
    "notificationsGranted q \<or> userGrantsNotifications q"
    by (simp_all add: q_def iphone_def phone_def isAvailable_def)
  have r0: "requestOf iphone newAlarm
      = \<lparr> nr_identifier = ''expo-0'', nr_body = ''Wake'', nr_alarmId = ''1'', nr_label = ''Wake'',
          nr_isSnooze = False, nr_trigger = DateTrigger 25200000 \<rparr>"
    by (simp add: requestOf_def newAlarm_def wakeAlarm_def orDefault_def oneTimeTrigger_clock
        iphone_def phone_def digits_0)
  have r1: "requestOf q ?a
      = \<lparr> nr_identifier = ''expo-1'', nr_body = ''Wake'', nr_alarmId = ''1'', nr_label = ''Wake'',
          nr_isSnooze = False, nr_trigger = DateTrigger 25200000 \<rparr>"
    by (simp add: requestOf_def newAlarm_def wakeAlarm_def orDefault_def oneTimeTrigger_clock
        q_def iphone_def phone_def digits_1)
  have sq: "scheduledNotifications q
      = [\<lparr> nr_identifier = ''expo-0'', nr_body = ''Wake'', nr_alarmId = ''1'', nr_label = ''Wake'',
          nr_isSnooze = False, nr_trigger = DateTrigger 25200000 \<rparr>]"
    by (simp add: q_def r0)
  have rq: "rejecting q = []" by (simp add: q_def iphone_def phone_def)
  have b: "scheduledNotifications (beforeArming q ?a)
      = (if handle = None
         then [\<lparr> nr_identifier = ''expo-0'', nr_body = ''Wake'', nr_alarmId = ''1'',
                  nr_label = ''Wake'', nr_isSnooze = False, nr_trigger = DateTrigger 25200000 \<rparr>]
         else [])"
    using assms(2)
    by (auto simp: beforeArming_def Let_def orElse_def cancelNotification_def startsWith_def
        cancelScheduledNotificationAsync_def sq rq)
  note s = scheduleAlarmNotification_fallback[OF f, of ?a]
  show "fst (scheduleAlarmNotification q ?a) = Some ''expo-1''"
    unfolding s by (simp add: q_def iphone_def phone_def digits_1)
  show "map nr_identifier (liveRequests (snd (scheduleAlarmNotification q ?a)) ''1'')
         = (if handle = None then [''expo-0'', ''expo-1''] else [''expo-1''])"
    unfolding s by (simp add: liveRequests_def b r1)
qed

text \<open>
  C5. Claim: invoking the schedule operation twice in succession leaves exactly one live
  handle for the id, because any existing handle for the id is disarmed first.
  \<open>scheduleAlarmNotification\<close> cancels the handle of the record it is given, and no other.
  On the device without the native module the alarm that was never armed is scheduled
  twice from the same record: the calls return \<open>expo-0\<close> and \<open>expo-1\<close>, and both requests
  are live afterwards.
\<close>

theorem rearm_same_record_twice:
  "fst (scheduleAlarmNotification iphone newAlarm) = Some ''expo-0''
 \<and> fst (scheduleAlarmNotification (snd (scheduleAlarmNotification iphone newAlarm)) newAlarm)
     = Some ''expo-1''
 \<and> map nr_identifier
       (liveRequests
          (snd (scheduleAlarmNotification (snd (scheduleAlarmNotification iphone newAlarm)) newAlarm))
          ''1'')
     = [''expo-0'', ''expo-1'']"
proof -
  have n: "newAlarm\<lparr>notificationId := None\<rparr> = newAlarm" by (simp add: newAlarm_def)
  from schedule_iphone_again[of None] show ?thesis
    unfolding schedule_iphone snd_conv fst_conv n by simp
qed

text \<open>
  C5, as the code has it: arming replaces the handle the record carries. On a device
  with the native module, two successful calls of \<open>scheduleAlarmNotification\<close> for one alarm
  id, whatever handle the records passed hold, return the same handle and leave exactly
  one pending native alarm under the request code of the id: the one of the second call.
  The handle of the record is cancelled before the alarm is handed to the gateway: when
  the record holds the native handle of its id and the gateway then refuses the alarm,
  the call returns \<open>null\<close> and no alarm of the id is pending. Without the native module,
  when the record holds the handle of every live request of its id and the second call
  is passed the record with the handle the first call returned (a proper identifier),
  exactly one notification request of the id is live after each call: the one just
  scheduled.
\<close>

theorem rearm_replaces:
  "(isAvailable p \<and> alarm_id alarm2 = alarm_id alarm1
      \<and> scheduleAlarmNotification p alarm1 = (Some h1, p1)
      \<and> scheduleAlarmNotification p1 alarm2 = (Some h2, p2)
    \<longrightarrow> h1 = ''native-'' @ alarm_id alarm1 \<and> h2 = h1
      \<and> pendingFor p1 (alarm_id alarm1) = [(hashCode (alarm_id alarm1), nativeAlarmOf p alarm1)]
      \<and> pendingFor p2 (alarm_id alarm1) = [(hashCode (alarm_id alarm1), nativeAlarmOf p1 alarm2)])
 \<and> (isAvailable p \<and> Notifications \<notin> set (rejecting p)
      \<and> (notificationsGranted p \<or> userGrantsNotifications p)
      \<and> RequestExactAlarmPermission \<notin> set (rejecting p) \<and> CancelAlarm \<notin> set (rejecting p)
      \<and> notificationId alarm = Some (''native-'' @ alarm_id alarm)
      \<and> (ScheduleAlarm \<in> set (rejecting p) \<or> \<not> exactAllowed p)
    \<longrightarrow> fst (scheduleAlarmNotification p alarm) = None
      \<and> pendingFor (snd (scheduleAlarmNotification p alarm)) (alarm_id alarm) = [])
 \<and> (\<not> isAvailable p \<and> recorded p alarm
      \<and> scheduleAlarmNotification p alarm = (Some h1, p1)
      \<and> h1 \<noteq> [] \<and> \<not> startsWith h1 ''native-''
      \<and> scheduleAlarmNotification p1 (alarm\<lparr>notificationId := Some h1\<rparr>) = (Some h2, p2)
    \<longrightarrow> liveRequests p1 (alarm_id alarm) = [requestOf p alarm]
      \<and> liveRequests p2 (alarm_id alarm) = [requestOf p1 (alarm\<lparr>notificationId := Some h1\<rparr>)]
      \<and> nr_identifier (requestOf p1 (alarm\<lparr>notificationId := Some h1\<rparr>)) = h2)"
proof (intro conjI)
  show "isAvailable p \<and> alarm_id alarm2 = alarm_id alarm1
      \<and> scheduleAlarmNotification p alarm1 = (Some h1, p1)
      \<and> scheduleAlarmNotification p1 alarm2 = (Some h2, p2)
    \<longrightarrow> h1 = ''native-'' @ alarm_id alarm1 \<and> h2 = h1
      \<and> pendingFor p1 (alarm_id alarm1) = [(hashCode (alarm_id alarm1), nativeAlarmOf p alarm1)]
      \<and> pendingFor p2 (alarm_id alarm1) = [(hashCode (alarm_id alarm1), nativeAlarmOf p1 alarm2)]"
  proof (intro impI)
    assume a: "isAvailable p \<and> alarm_id alarm2 = alarm_id alarm1
      \<and> scheduleAlarmNotification p alarm1 = (Some h1, p1)
      \<and> scheduleAlarmNotification p1 alarm2 = (Some h2, p2)"
    then have av: "isAvailable p" and i: "alarm_id alarm2 = alarm_id alarm1"
      and c1: "scheduleAlarmNotification p alarm1 = (Some h1, p1)"
      and c2: "scheduleAlarmNotification p1 alarm2 = (Some h2, p2)"
      by simp_all
    note n1 = native_call[OF av c1]
    note n2 = native_call[OF n1(3) c2]
    from n1(1) n2(1) i have "h2 = h1" by simp
    moreover from n2(2) i
    have "pendingFor p2 (alarm_id alarm1) = [(hashCode (alarm_id alarm1), nativeAlarmOf p1 alarm2)]"
      by simp
    ultimately show "h1 = ''native-'' @ alarm_id alarm1 \<and> h2 = h1
      \<and> pendingFor p1 (alarm_id alarm1) = [(hashCode (alarm_id alarm1), nativeAlarmOf p alarm1)]
      \<and> pendingFor p2 (alarm_id alarm1) = [(hashCode (alarm_id alarm1), nativeAlarmOf p1 alarm2)]"
      using n1(1,2) by simp
  qed
next
  show "isAvailable p \<and> Notifications \<notin> set (rejecting p)
      \<and> (notificationsGranted p \<or> userGrantsNotifications p)
      \<and> RequestExactAlarmPermission \<notin> set (rejecting p) \<and> CancelAlarm \<notin> set (rejecting p)
      \<and> notificationId alarm = Some (''native-'' @ alarm_id alarm)
      \<and> (ScheduleAlarm \<in> set (rejecting p) \<or> \<not> exactAllowed p)
    \<longrightarrow> fst (scheduleAlarmNotification p alarm) = None
      \<and> pendingFor (snd (scheduleAlarmNotification p alarm)) (alarm_id alarm) = []"
  proof (intro impI)
    assume a: "isAvailable p \<and> Notifications \<notin> set (rejecting p)
      \<and> (notificationsGranted p \<or> userGrantsNotifications p)
      \<and> RequestExactAlarmPermission \<notin> set (rejecting p) \<and> CancelAlarm \<notin> set (rejecting p)
      \<and> notificationId alarm = Some (''native-'' @ alarm_id alarm)
      \<and> (ScheduleAlarm \<in> set (rejecting p) \<or> \<not> exactAllowed p)"
    then have av: "isAvailable p" and nt: "Notifications \<notin> set (rejecting p)"
      and gr: "notificationsGranted p \<or> userGrantsNotifications p"
      and rq: "RequestExactAlarmPermission \<notin> set (rejecting p)"
      and ca: "CancelAlarm \<notin> set (rejecting p)"
      and ha: "notificationId alarm = Some (''native-'' @ alarm_id alarm)"
      and rf: "ScheduleAlarm \<in> set (rejecting p) \<or> \<not> exactAllowed p"
      by simp_all
    note n = scheduleAlarmNotification_native[OF av nt gr, of alarm]
    from n rq rf have r: "scheduleAlarmNotification p alarm = (None, beforeArming p alarm)"
      by auto
    show "fst (scheduleAlarmNotification p alarm) = None
      \<and> pendingFor (snd (scheduleAlarmNotification p alarm)) (alarm_id alarm) = []"
      unfolding r using pendingFor_cancelled[OF av ha ca] by simp
  qed
next
  show "\<not> isAvailable p \<and> recorded p alarm
      \<and> scheduleAlarmNotification p alarm = (Some h1, p1)
      \<and> h1 \<noteq> [] \<and> \<not> startsWith h1 ''native-''
      \<and> scheduleAlarmNotification p1 (alarm\<lparr>notificationId := Some h1\<rparr>) = (Some h2, p2)
    \<longrightarrow> liveRequests p1 (alarm_id alarm) = [requestOf p alarm]
      \<and> liveRequests p2 (alarm_id alarm) = [requestOf p1 (alarm\<lparr>notificationId := Some h1\<rparr>)]
      \<and> nr_identifier (requestOf p1 (alarm\<lparr>notificationId := Some h1\<rparr>)) = h2"
  proof (intro impI)
    assume a: "\<not> isAvailable p \<and> recorded p alarm
      \<and> scheduleAlarmNotification p alarm = (Some h1, p1)
      \<and> h1 \<noteq> [] \<and> \<not> startsWith h1 ''native-''
      \<and> scheduleAlarmNotification p1 (alarm\<lparr>notificationId := Some h1\<rparr>) = (Some h2, p2)"
    then have av: "\<not> isAvailable p" and rec: "recorded p alarm"
      and c1: "scheduleAlarmNotification p alarm = (Some h1, p1)"
      and pr: "h1 \<noteq> []" "\<not> startsWith h1 ''native-''"
      and c2: "scheduleAlarmNotification p1 (alarm\<lparr>notificationId := Some h1\<rparr>) = (Some h2, p2)"
      by simp_all
    note f1 = fallback_call[OF av rec c1]
    have rec1: "recorded p1 (alarm\<lparr>notificationId := Some h1\<rparr>)"
      using f1(1,2) pr by (simp add: recorded_def requestOf_def)
    note f2 = fallback_call[OF f1(3) rec1 c2]
    from f2(2) have "liveRequests p2 (alarm_id alarm) = [requestOf p1 (alarm\<lparr>notificationId := Some h1\<rparr>)]"
      by simp
    moreover from f2(1) have "nr_identifier (requestOf p1 (alarm\<lparr>notificationId := Some h1\<rparr>)) = h2"
      by (simp add: requestOf_def)
    ultimately show "liveRequests p1 (alarm_id alarm) = [requestOf p alarm]
      \<and> liveRequests p2 (alarm_id alarm) = [requestOf p1 (alarm\<lparr>notificationId := Some h1\<rparr>)]
      \<and> nr_identifier (requestOf p1 (alarm\<lparr>notificationId := Some h1\<rparr>)) = h2"
      using f1(2) by simp
  qed
qed

lemma schedule_phone: "fst (scheduleAlarmNotification phone wakeAlarm) = Some ''native-1''"
  unfolding scheduleAlarmNotification_native[OF phone_facts]
  by (simp add: phone_def wakeAlarm_def canScheduleExactAlarms_def isAvailable_def
      java_canScheduleExactAlarms_def)

lemma schedule_phone_again:
  "fst (scheduleAlarmNotification (snd (scheduleAlarmNotification phone wakeAlarm)) wakeAlarm)
     = Some ''native-1''"
proof -
  obtain p1 where c1: "scheduleAlarmNotification phone wakeAlarm = (Some ''native-1'', p1)"
    using schedule_phone by (cases "scheduleAlarmNotification phone wakeAlarm") simp
  note n1 = native_call[OF phone_facts(1) c1]
  have p1: "p1 = (beforeArming phone wakeAlarm)\<lparr>alarmManager :=
               (hashCode (alarm_id wakeAlarm), nativeAlarmOf phone wakeAlarm)
               # filter (\<lambda>(code, pending). code \<noteq> hashCode (alarm_id wakeAlarm))
                   (alarmManager (beforeArming phone wakeAlarm))\<rparr>"
    using c1 unfolding scheduleAlarmNotification_native[OF phone_facts]
    by (auto split: if_splits)
  have f: "Notifications \<notin> set (rejecting p1)" "notificationsGranted p1 \<or> userGrantsNotifications p1"
    "rejecting p1 = []" "canScheduleExactAlarms p1" "exactAllowed p1"
    unfolding p1
    by (simp_all add: beforeArming_frame beforeArming_def Let_def phone_def wakeAlarm_def
        orElse_def cancelNotification_def startsWith_def cancelAlarm_def java_cancelAlarm_def
        isAvailable_def canScheduleExactAlarms_def java_canScheduleExactAlarms_def)
  show ?thesis
    unfolding c1 snd_conv scheduleAlarmNotification_native[OF n1(3) f(1,2)]
    using f(3,4,5) by (simp add: wakeAlarm_def)
qed

lemma recorded_iphone: "recorded iphone newAlarm"
  by (simp add: recorded_def liveRequests_def iphone_def phone_def)

text \<open>
  On the example phone the example alarm is armed twice: both calls return \<open>native-1\<close>
  and one native alarm is pending under the request code 49 of the id 1. On the phone
  whose gateway refuses the alarm, the pending alarm of the record is cancelled and none
  is pending after the call. On the device without the native module the alarm that was
  never armed is scheduled, and scheduled again with the handle \<open>expo-0\<close> in its record:
  the calls return \<open>expo-0\<close> and \<open>expo-1\<close>, and only the request \<open>expo-1\<close> is live in the
  end.
\<close>

theorem rearm_replaces_witness:
  "isAvailable phone
 \<and> fst (scheduleAlarmNotification phone wakeAlarm) = Some ''native-1''
 \<and> fst (scheduleAlarmNotification (snd (scheduleAlarmNotification phone wakeAlarm)) wakeAlarm)
     = Some ''native-1''
 \<and> map fst (pendingFor
       (snd (scheduleAlarmNotification (snd (scheduleAlarmNotification phone wakeAlarm)) wakeAlarm))
       ''1'') = [49]
 \<and> isAvailable refusingPhone \<and> ScheduleAlarm \<in> set (rejecting refusingPhone)
 \<and> notificationId wakeAlarm = Some ''native-1''
 \<and> map fst (pendingFor refusingPhone ''1'') = [49]
 \<and> fst (scheduleAlarmNotification refusingPhone wakeAlarm) = None
 \<and> pendingFor (snd (scheduleAlarmNotification refusingPhone wakeAlarm)) ''1'' = []
 \<and> \<not> isAvailable iphone \<and> recorded iphone newAlarm
 \<and> fst (scheduleAlarmNotification iphone newAlarm) = Some ''expo-0''
 \<and> fst (scheduleAlarmNotification (snd (scheduleAlarmNotification iphone newAlarm))
          (newAlarm\<lparr>notificationId := Some ''expo-0''\<rparr>)) = Some ''expo-1''
 \<and> map nr_identifier
       (liveRequests
          (snd (scheduleAlarmNotification (snd (scheduleAlarmNotification iphone newAlarm))
                  (newAlarm\<lparr>notificationId := Some ''expo-0''\<rparr>)))
          ''1'') = [''expo-1'']"
proof -
  obtain p1 where c1: "scheduleAlarmNotification phone wakeAlarm = (Some ''native-1'', p1)"
    using schedule_phone by (cases "scheduleAlarmNotification phone wakeAlarm") simp
  obtain p2 where c2: "scheduleAlarmNotification p1 wakeAlarm = (Some ''native-1'', p2)"
    using schedule_phone_again unfolding c1 snd_conv
    by (cases "scheduleAlarmNotification p1 wakeAlarm") simp
  let ?q1 = "iphone\<lparr>scheduledNotifications := [requestOf iphone newAlarm], issued := 1\<rparr>"
  note d1 = schedule_iphone
  have again: "fst (scheduleAlarmNotification ?q1 (newAlarm\<lparr>notificationId := Some ''expo-0''\<rparr>))
        = Some ''expo-1''"
    using schedule_iphone_again(1)[of "Some ''expo-0''"] by simp
  obtain q2 where d2: "scheduleAlarmNotification ?q1 (newAlarm\<lparr>notificationId := Some ''expo-0''\<rparr>)
        = (Some ''expo-1'', q2)"
    using again
    by (cases "scheduleAlarmNotification ?q1 (newAlarm\<lparr>notificationId := Some ''expo-0''\<rparr>)") simp
  have pr: "''expo-0'' \<noteq> []" "\<not> startsWith ''expo-0'' ''native-''"
    by (simp_all add: startsWith_def)
  have i: "alarm_id wakeAlarm = ''1''" "alarm_id newAlarm = ''1''"
    "notificationId wakeAlarm = Some ''native-1''"
    by (simp_all add: wakeAlarm_def newAlarm_def)
  have rf: "isAvailable refusingPhone" "Notifications \<notin> set (rejecting refusingPhone)"
    "notificationsGranted refusingPhone \<or> userGrantsNotifications refusingPhone"
    "RequestExactAlarmPermission \<notin> set (rejecting refusingPhone)"
    "CancelAlarm \<notin> set (rejecting refusingPhone)"
    "ScheduleAlarm \<in> set (rejecting refusingPhone)"
    "map fst (pendingFor refusingPhone ''1'') = [49]"
    by (simp_all add: refusingPhone_def phone_def isAvailable_def pendingFor_def hashCode_1)
  from rearm_replaces[where p = phone and ?alarm1.0 = wakeAlarm and ?alarm2.0 = wakeAlarm
      and ?h1.0 = "''native-1''" and ?p1.0 = p1 and ?h2.0 = "''native-1''" and ?p2.0 = p2]
    phone_facts(1) c1 c2
  have n: "pendingFor p2 ''1'' = [(hashCode ''1'', nativeAlarmOf p1 wakeAlarm)]"
    by (simp add: i)
  from rearm_replaces[where p = refusingPhone and alarm = wakeAlarm] rf
  have m: "fst (scheduleAlarmNotification refusingPhone wakeAlarm) = None"
    "pendingFor (snd (scheduleAlarmNotification refusingPhone wakeAlarm)) ''1'' = []"
    by (simp_all add: i)
  from rearm_replaces[where p = iphone and alarm = newAlarm
      and ?h1.0 = "''expo-0''" and ?p1.0 = ?q1 and ?h2.0 = "''expo-1''" and ?p2.0 = q2]
    iphone_facts(1) recorded_iphone d1 d2 pr
  have l: "liveRequests q2 ''1'' = [requestOf ?q1 (newAlarm\<lparr>notificationId := Some ''expo-0''\<rparr>)]"
    "nr_identifier (requestOf ?q1 (newAlarm\<lparr>notificationId := Some ''expo-0''\<rparr>)) = ''expo-1''"
    by (simp_all add: i)
  have l': "map nr_identifier (liveRequests q2 ''1'') = [''expo-1'']"
    by (simp only: l list.map)
  have n': "map fst (pendingFor p2 ''1'') = [49]"
    by (simp add: n hashCode_1)
  show ?thesis
    unfolding c1 c2 d1 d2 snd_conv fst_conv
    using phone_facts(1) iphone_facts(1) recorded_iphone rf(1,6,7) i(3) m l' n'
    by simp
qed

text \<open>
  Without the exact-alarm permission the alarm manager refuses the alarm, and
  \<open>scheduleAlarmNotification\<close> answers \<open>null\<close>; nothing is armed.
\<close>

lemma scheduleAlarmNotification_refused:
  assumes "isAvailable p" "\<not> exactAllowed p"
  shows "fst (scheduleAlarmNotification p alarm) = None"
    and "set (alarmManager (snd (scheduleAlarmNotification p alarm))) \<subseteq> set (alarmManager p)"
proof -
  have "fst (scheduleAlarmNotification p alarm) = None
      \<and> set (alarmManager (snd (scheduleAlarmNotification p alarm))) \<subseteq> set (alarmManager p)"
  proof (cases "Notifications \<in> set (rejecting p)")
    case True
    then have "scheduleAlarmNotification p alarm = (None, p)"
      by (simp add: scheduleAlarmNotification_def requestPermissions_def)
    then show ?thesis by simp
  next
    case False
    show ?thesis
    proof (cases "notificationsGranted p \<or> userGrantsNotifications p")
      case True
      note n = scheduleAlarmNotification_native[OF assms(1) False True, of alarm]
      from n assms(2) have "scheduleAlarmNotification p alarm = (None, p\<lparr>notificationsGranted := True\<rparr>)
          \<or> scheduleAlarmNotification p alarm = (None, beforeArming p alarm)"
        by (auto split: if_splits)
      then show ?thesis using beforeArming_alarmManager[of p alarm] by auto
    next
      case denied: False
      then have "requestPermissions p = Inr (False, p\<lparr>notificationsGranted := False\<rparr>)"
        using False by (simp add: requestPermissions_def)
      then have "scheduleAlarmNotification p alarm = (None, p\<lparr>notificationsGranted := False\<rparr>)"
        by (simp add: scheduleAlarmNotification_def)
      then show ?thesis by simp
    qed
  qed
  then show "fst (scheduleAlarmNotification p alarm) = None"
    and "set (alarmManager (snd (scheduleAlarmNotification p alarm))) \<subseteq> set (alarmManager p)"
    by simp_all
qed

text \<open>
  After the refusal the platform is as it was before the arming, and with the permission
  granted the same call arms the alarm.
\<close>

lemma scheduleAlarmNotification_retry:
  fixes p :: platform and alarm :: Alarm and t :: date
  assumes "isAvailable p" "\<not> exactAllowed p"
    "Notifications \<notin> set (rejecting p)" "notificationsGranted p \<or> userGrantsNotifications p"
    "RequestExactAlarmPermission \<notin> set (rejecting p)" "ScheduleAlarm \<notin> set (rejecting p)"
  defines "q \<equiv> (snd (scheduleAlarmNotification p alarm))\<lparr>exactAllowed := True, clock := t\<rparr>"
  shows "fst (scheduleAlarmNotification q alarm) = Some (''native-'' @ alarm_id alarm)"
    and "pendingFor (snd (scheduleAlarmNotification q alarm)) (alarm_id alarm)
           = [(hashCode (alarm_id alarm), nativeAlarmOf (p\<lparr>clock := t\<rparr>) alarm)]"
proof -
  note n = scheduleAlarmNotification_native[OF assms(1,3,4), of alarm]
  from n assms(2,5) have s: "snd (scheduleAlarmNotification p alarm) = beforeArming p alarm"
    by simp
  have q: "q = (beforeArming p alarm)\<lparr>exactAllowed := True, clock := t\<rparr>"
    unfolding q_def s ..
  have av: "isAvailable q"
    using assms(1) by (simp add: q isAvailable_def beforeArming_frame[unfolded isAvailable_def])
  have rj: "rejecting q = rejecting p" by (simp add: q beforeArming_frame)
  have gr: "notificationsGranted q" by (simp add: q beforeArming_frame)
  have ex: "exactAllowed q" by (simp add: q)
  have na: "nativeAlarmOf q alarm = nativeAlarmOf (p\<lparr>clock := t\<rparr>) alarm"
    by (simp add: q nativeAlarmOf_def oneTimeTrigger_clock beforeArming_frame)
  have nq: "Notifications \<notin> set (rejecting q)" "notificationsGranted q \<or> userGrantsNotifications q"
    using assms(3) gr by (simp_all add: rj)
  note m = scheduleAlarmNotification_native[OF av nq, of alarm]
  from m assms(5,6) ex have r: "scheduleAlarmNotification q alarm =
      (Some (''native-'' @ alarm_id alarm),
       (beforeArming q alarm)\<lparr>alarmManager :=
          (hashCode (alarm_id alarm), nativeAlarmOf q alarm)
          # filter (\<lambda>(code, pending). code \<noteq> hashCode (alarm_id alarm))
              (alarmManager (beforeArming q alarm))\<rparr>)"
    by (simp add: rj)
  show "fst (scheduleAlarmNotification q alarm) = Some (''native-'' @ alarm_id alarm)"
    unfolding r by simp
  show "pendingFor (snd (scheduleAlarmNotification q alarm)) (alarm_id alarm)
           = [(hashCode (alarm_id alarm), nativeAlarmOf (p\<lparr>clock := t\<rparr>) alarm)]"
    unfolding r snd_conv na[symmetric] by (rule pendingFor_scheduled)
qed

text \<open>
  C4. Claim: when the gateway reports the exact-alarm permission missing, scheduling
  fails, returns no handle and leaves the alarm un-armed. \<open>scheduleAlarmNotification\<close>
  does not read the report. On the example phone with the permission granted and the
  check itself rejecting, \<open>canScheduleExactAlarms\<close> catches the error and reports
  \<open>false\<close>, \<open>requestExactAlarmPermission\<close> answers \<open>false\<close>, and the call arms the alarm
  and returns the handle \<open>native-1\<close>.
\<close>

theorem report_missing_still_arms:
  "isAvailable (phone\<lparr>rejecting := [CanScheduleExactAlarms]\<rparr>)
 \<and> canScheduleExactAlarms (phone\<lparr>rejecting := [CanScheduleExactAlarms]\<rparr>) = False
 \<and> requestExactAlarmPermission (phone\<lparr>rejecting := [CanScheduleExactAlarms]\<rparr>)
     = Inr (False, phone\<lparr>rejecting := [CanScheduleExactAlarms]\<rparr>)
 \<and> scheduleAlarmNotification (phone\<lparr>rejecting := [CanScheduleExactAlarms]\<rparr>) wakeAlarm
     = (Some ''native-1'',
        phone\<lparr>rejecting := [CanScheduleExactAlarms],
              alarmManager :=
                [(49, \<lparr> na_id = ''1'', na_label = ''Wake'', na_triggerTime = 25200000,
                         na_isRepeating = False \<rparr>)]\<rparr>)"
proof -
  let ?q = "phone\<lparr>rejecting := [CanScheduleExactAlarms]\<rparr>"
  have av: "isAvailable ?q" "Notifications \<notin> set (rejecting ?q)"
    "notificationsGranted ?q \<or> userGrantsNotifications ?q"
    by (simp_all add: phone_def isAvailable_def)
  have c: "canScheduleExactAlarms ?q = False"
    by (simp add: canScheduleExactAlarms_def java_canScheduleExactAlarms_def)
  have r: "requestExactAlarmPermission ?q = Inr (False, ?q)"
    unfolding requestExactAlarmPermission_result[OF av(1)] c by simp
  have b: "beforeArming ?q wakeAlarm = ?q"
    by (simp add: beforeArming_def Let_def phone_def wakeAlarm_def orElse_def isAvailable_def
        cancelNotification_def startsWith_def cancelAlarm_def java_cancelAlarm_def)
  have n: "nativeAlarmOf ?q wakeAlarm
     = \<lparr> na_id = ''1'', na_label = ''Wake'', na_triggerTime = 25200000, na_isRepeating = False \<rparr>"
    by (simp add: nativeAlarmOf_def oneTimeTrigger_clock phone_def wakeAlarm_def orDefault_def)
  have s: "scheduleAlarmNotification ?q wakeAlarm
     = (Some ''native-1'',
        phone\<lparr>rejecting := [CanScheduleExactAlarms],
              alarmManager :=
                [(49, \<lparr> na_id = ''1'', na_label = ''Wake'', na_triggerTime = 25200000,
                         na_isRepeating = False \<rparr>)]\<rparr>)"
    unfolding scheduleAlarmNotification_native[OF av] b n
    by (simp add: phone_def wakeAlarm_def hashCode_1)
  from av(1) c r s show ?thesis by simp
qed

text \<open>
  C4, as the code has it: on a device with the native module, when the check of the
  native module resolves and reports the exact-alarm permission missing, the wrapper
  reports it missing and \<open>scheduleAlarmNotification\<close> fails: it returns \<open>null\<close>, no
  handle, and arms nothing (every alarm pending afterwards was pending before). The call has no access to the
  store, so the record stays as it is: when the event service re-arms a repeating alarm
  on its dismissal, the database is the same afterwards. The failure can be recovered
  from: when the other gateway calls resolve, the same call made after the permission has
  been granted, at any time \<open>t\<close>, returns the handle \<open>"native-" + id\<close> and the alarm is
  pending.
\<close>

theorem scheduleAlarmNotification_permission_missing:
  assumes "isAvailable p" "java_canScheduleExactAlarms p = Inr False"
  shows "\<not> canScheduleExactAlarms p
       \<and> fst (scheduleAlarmNotification p alarm) = None
       \<and> set (alarmManager (snd (scheduleAlarmNotification p alarm))) \<subseteq> set (alarmManager p)
       \<and> (getAlarmById db alarmId = Some alarm \<and> repeatDays alarm \<noteq> [] \<longrightarrow>
            handleDismiss db p alarmId = (db, snd (scheduleAlarmNotification p alarm)))
       \<and> (Notifications \<notin> set (rejecting p)
            \<and> (notificationsGranted p \<or> userGrantsNotifications p)
            \<and> RequestExactAlarmPermission \<notin> set (rejecting p)
            \<and> ScheduleAlarm \<notin> set (rejecting p) \<longrightarrow>
          fst (scheduleAlarmNotification
                 ((snd (scheduleAlarmNotification p alarm))\<lparr>exactAllowed := True, clock := t\<rparr>)
                 alarm)
            = Some (''native-'' @ alarm_id alarm)
        \<and> pendingFor
            (snd (scheduleAlarmNotification
                    ((snd (scheduleAlarmNotification p alarm))\<lparr>exactAllowed := True, clock := t\<rparr>)
                    alarm))
            (alarm_id alarm)
            = [(hashCode (alarm_id alarm), nativeAlarmOf (p\<lparr>clock := t\<rparr>) alarm)])"
proof -
  from assms(2) have ex: "\<not> exactAllowed p"
    by (simp add: java_canScheduleExactAlarms_def split: if_splits)
  note hyp = assms(1) ex
  show ?thesis
  proof (intro conjI impI)
  show "\<not> canScheduleExactAlarms p"
    using assms(2) by (simp add: canScheduleExactAlarms_def)
  show "fst (scheduleAlarmNotification p alarm) = None"
    by (rule scheduleAlarmNotification_refused(1)[OF hyp])
  show "set (alarmManager (snd (scheduleAlarmNotification p alarm))) \<subseteq> set (alarmManager p)"
    by (rule scheduleAlarmNotification_refused(2)[OF hyp])
next
  assume "getAlarmById db alarmId = Some alarm \<and> repeatDays alarm \<noteq> []"
  then show "handleDismiss db p alarmId = (db, snd (scheduleAlarmNotification p alarm))"
    by (simp add: handleDismiss_def)
next
  assume a: "Notifications \<notin> set (rejecting p)
            \<and> (notificationsGranted p \<or> userGrantsNotifications p)
            \<and> RequestExactAlarmPermission \<notin> set (rejecting p)
            \<and> ScheduleAlarm \<notin> set (rejecting p)"
  then have h: "Notifications \<notin> set (rejecting p)"
    "notificationsGranted p \<or> userGrantsNotifications p"
    "RequestExactAlarmPermission \<notin> set (rejecting p)" "ScheduleAlarm \<notin> set (rejecting p)"
    by simp_all
  show "fst (scheduleAlarmNotification
                 ((snd (scheduleAlarmNotification p alarm))\<lparr>exactAllowed := True, clock := t\<rparr>)
                 alarm)
            = Some (''native-'' @ alarm_id alarm)"
    by (rule scheduleAlarmNotification_retry(1)[OF assms(1) ex h])
next
  assume a: "Notifications \<notin> set (rejecting p)
            \<and> (notificationsGranted p \<or> userGrantsNotifications p)
            \<and> RequestExactAlarmPermission \<notin> set (rejecting p)
            \<and> ScheduleAlarm \<notin> set (rejecting p)"
  then have h: "Notifications \<notin> set (rejecting p)"
    "notificationsGranted p \<or> userGrantsNotifications p"
    "RequestExactAlarmPermission \<notin> set (rejecting p)" "ScheduleAlarm \<notin> set (rejecting p)"
    by simp_all
  show "pendingFor
            (snd (scheduleAlarmNotification
                    ((snd (scheduleAlarmNotification p alarm))\<lparr>exactAllowed := True, clock := t\<rparr>)
                    alarm))
            (alarm_id alarm)
            = [(hashCode (alarm_id alarm), nativeAlarmOf (p\<lparr>clock := t\<rparr>) alarm)]"
    by (rule scheduleAlarmNotification_retry(2)[OF assms(1) ex h])
qed
qed

text \<open>
  The example alarm repeating on Monday and Wednesday, and a store holding it.
\<close>

definition weekdayAlarm :: Alarm where
  "weekdayAlarm = wakeAlarm\<lparr>repeatDays := [Mon, Wed]\<rparr>"

definition weekdayDb :: database where
  "weekdayDb = \<lparr> opens = True, reads = True, writes = True, table = [alarmToRow weekdayAlarm] \<rparr>"

lemma getAlarmById_weekdayDb: "getAlarmById weekdayDb ''1'' = Some weekdayAlarm"
proof -
  have r: "row_id (alarmToRow weekdayAlarm) = ''1''"
    by (simp add: alarmToRow_def weekdayAlarm_def wakeAlarm_def)
  have w: "rowToAlarm (alarmToRow weekdayAlarm) = Inr weekdayAlarm"
    unfolding rowToAlarm_written by (simp add: weekdayAlarm_def wakeAlarm_def orElse_def)
  show ?thesis
    by (simp add: getAlarmById_def getDatabase_def selectById_def weekdayDb_def r w)
qed

text \<open>
  On the example phone without the permission the example alarm is not armed; armed
  again at 06:00 with the permission granted, it is pending for 07:00. The dismissal of
  the repeating alarm on that phone leaves the store as it was, and nothing pending.
\<close>

theorem scheduleAlarmNotification_permission_missing_witness:
  "isAvailable phoneWithoutExact \<and> java_canScheduleExactAlarms phoneWithoutExact = Inr False
 \<and> \<not> canScheduleExactAlarms phoneWithoutExact
 \<and> fst (scheduleAlarmNotification phoneWithoutExact wakeAlarm) = None
 \<and> alarmManager (snd (scheduleAlarmNotification phoneWithoutExact wakeAlarm)) = []
 \<and> fst (scheduleAlarmNotification
          ((snd (scheduleAlarmNotification phoneWithoutExact wakeAlarm))
             \<lparr>exactAllowed := True, clock := 21600000\<rparr>) wakeAlarm) = Some ''native-1''
 \<and> pendingFor
      (snd (scheduleAlarmNotification
              ((snd (scheduleAlarmNotification phoneWithoutExact wakeAlarm))
                 \<lparr>exactAllowed := True, clock := 21600000\<rparr>) wakeAlarm)) ''1''
     = [(49, \<lparr> na_id = ''1'', na_label = ''Wake'', na_triggerTime = 25200000,
                na_isRepeating = False \<rparr>)]
 \<and> getAlarmById weekdayDb ''1'' = Some weekdayAlarm \<and> repeatDays weekdayAlarm \<noteq> []
 \<and> fst (handleDismiss weekdayDb phoneWithoutExact ''1'') = weekdayDb
 \<and> alarmManager (snd (handleDismiss weekdayDb phoneWithoutExact ''1'')) = []"
proof -
  have av: "isAvailable phoneWithoutExact" "java_canScheduleExactAlarms phoneWithoutExact = Inr False"
    by (simp_all add: phoneWithoutExact_def phone_def isAvailable_def java_canScheduleExactAlarms_def)
  have h: "Notifications \<notin> set (rejecting phoneWithoutExact)"
    "notificationsGranted phoneWithoutExact \<or> userGrantsNotifications phoneWithoutExact"
    "RequestExactAlarmPermission \<notin> set (rejecting phoneWithoutExact)"
    "ScheduleAlarm \<notin> set (rejecting phoneWithoutExact)"
    "alarmManager phoneWithoutExact = []"
    by (simp_all add: phoneWithoutExact_def phone_def)
  have i: "alarm_id wakeAlarm = ''1''" by (simp add: wakeAlarm_def)
  have c: "phoneWithoutExact\<lparr>clock := 21600000\<rparr> = phoneWithoutExact"
    by (simp add: phoneWithoutExact_def phone_def)
  have ne: "repeatDays weekdayAlarm \<noteq> []" by (simp add: weekdayAlarm_def)
  from scheduleAlarmNotification_permission_missing[OF av, of wakeAlarm _ _ 21600000] av h
  have one: "\<not> canScheduleExactAlarms phoneWithoutExact"
    "fst (scheduleAlarmNotification phoneWithoutExact wakeAlarm) = None"
    "alarmManager (snd (scheduleAlarmNotification phoneWithoutExact wakeAlarm)) = []"
    "fst (scheduleAlarmNotification
          ((snd (scheduleAlarmNotification phoneWithoutExact wakeAlarm))
             \<lparr>exactAllowed := True, clock := 21600000\<rparr>) wakeAlarm) = Some ''native-1''"
    "pendingFor
      (snd (scheduleAlarmNotification
              ((snd (scheduleAlarmNotification phoneWithoutExact wakeAlarm))
                 \<lparr>exactAllowed := True, clock := 21600000\<rparr>) wakeAlarm)) ''1''
     = [(49, \<lparr> na_id = ''1'', na_label = ''Wake'', na_triggerTime = 25200000,
                na_isRepeating = False \<rparr>)]"
    by (simp_all add: i c nativeAlarmOf_wake hashCode_1)
  from scheduleAlarmNotification_permission_missing[OF av, of weekdayAlarm weekdayDb "''1''"]
    getAlarmById_weekdayDb ne h(5)
  have two: "fst (handleDismiss weekdayDb phoneWithoutExact ''1'') = weekdayDb"
    "alarmManager (snd (handleDismiss weekdayDb phoneWithoutExact ''1'')) = []"
    by simp_all
  from av one two getAlarmById_weekdayDb ne show ?thesis by simp
qed

text \<open>
  \<open>null\<close> is the answer to every failure: the same value is returned when the
  notification permission is denied.
\<close>

lemma scheduleAlarmNotification_denied:
  assumes "\<not> notificationsGranted p" "\<not> userGrantsNotifications p"
  shows "fst (scheduleAlarmNotification p alarm) = None"
  using assms by (simp add: scheduleAlarmNotification_def requestPermissions_def)

end
